theory Spec2Isabelle
  imports Complex_Main
begin

section \<open>Conventions of the embedding\<close>

text \<open>
  The Go sources are embedded shallowly.  A Go \<open>string\<close> is a byte sequence and is
  modelled by \<^typ>\<open>string\<close>, so \<open>len(s)\<close> is \<^term>\<open>length s\<close>.  Go's \<open>int\<close> (64 bits
  on the platforms the bot is built for) and \<open>int64\<close> are modelled by \<^typ>\<open>int\<close> with
  the wrap-around written out: every \<open>+\<close>, \<open>-\<close>, \<open>*\<close> and \<open>/\<close> of the Go code is one of
  \<open>add64\<close>, \<open>sub64\<close>, \<open>mul64\<close> and \<open>quo64\<close> below, which reduce the exact result
  to the two's complement range.  The lengths of Go strings and slices are taken as
  they are: a length fits an \<open>int\<close>.  Lua numbers of the server-side scripts are
  modelled by \<^typ>\<open>int\<close>; the scripts add counters, limits and time-to-live values.
  A Go function returning \<open>(T, error)\<close> returns \<open>error + T\<close> here, a panic is an
  error value, and a function that mutates its receiver returns the updated receiver
  next to its result.
\<close>

definition wrap64 :: "int \<Rightarrow> int" where
  "wrap64 x = (x + 2 ^ 63) mod 2 ^ 64 - 2 ^ 63"

definition add64 :: "int \<Rightarrow> int \<Rightarrow> int" where
  "add64 a b = wrap64 (a + b)"

definition sub64 :: "int \<Rightarrow> int \<Rightarrow> int" where
  "sub64 a b = wrap64 (a - b)"

definition mul64 :: "int \<Rightarrow> int \<Rightarrow> int" where
  "mul64 a b = wrap64 (a * b)"

text \<open>Go's integer division truncates towards zero; the divisor is not zero.\<close>

definition go_div :: "int \<Rightarrow> int \<Rightarrow> int" where
  "go_div a b = (if (a < 0) = (b < 0) then \<bar>a\<bar> div \<bar>b\<bar> else - (\<bar>a\<bar> div \<bar>b\<bar>))"

definition quo64 :: "int \<Rightarrow> int \<Rightarrow> int" where
  "quo64 a b = wrap64 (go_div a b)"

datatype error =
    EncoderFailure
  | DivideByZero
  | ScriptFailed
  | UnexpectedFormat
  | UnknownStatus int

section \<open>Token counting (package conversation, tokens.go)\<close>

text \<open>
  The tiktoken library is not part of the repository.  An encoder is modelled by its
  \<open>Encode\<close> method, a function from text to a list of token ids, and the library's
  \<open>GetEncoding\<close> is a parameter \<open>ge\<close> of every function that reaches it: \<open>ge name = None\<close>
  stands for a returned error.
\<close>

type_synonym encoder = "string \<Rightarrow> int list"

record TokenCounter =
  encoders :: "string \<rightharpoonup> encoder"

definition NewTokenCounter :: TokenCounter where
  "NewTokenCounter = \<lparr>encoders = Map.empty\<rparr>"

text \<open>\<open>findSubstring\<close>: the loop \<open>for i := 0; i <= len(s)-len(substr); i++\<close>, started at \<open>i\<close>.\<close>

function findSubstring_from :: "nat \<Rightarrow> string \<Rightarrow> string \<Rightarrow> bool" where
  "findSubstring_from i s substr =
     (if int i \<le> int (length s) - int (length substr)
      then (if take (length substr) (drop i s) = substr then True
            else findSubstring_from (Suc i) s substr)
      else False)"
  by pat_completeness auto
termination
  by (relation "measure (\<lambda>(i, s, substr). Suc (length s) - i)") auto

declare findSubstring_from.simps [simp del]

definition findSubstring :: "string \<Rightarrow> string \<Rightarrow> bool" where
  "findSubstring s substr = findSubstring_from 0 s substr"

definition conversation_contains :: "string \<Rightarrow> string \<Rightarrow> bool" where
  "conversation_contains s substr =
     (length s \<ge> length substr \<and>
      (s = substr \<or>
       length s > length substr \<and>
       (take (length substr) s = substr \<or>
        drop (length s - length substr) s = substr \<or>
        findSubstring s substr)))"

definition getEncodingName :: "string \<Rightarrow> string" where
  "getEncodingName model =
     (if conversation_contains model ''gpt-4'' \<or> conversation_contains model ''gpt-3.5''
         \<or> conversation_contains model ''gpt-35''
      then ''cl100k_base''
      else if conversation_contains model ''claude'' then ''cl100k_base''
      else ''cl100k_base'')"

text \<open>\<open>estimateTokens\<close>: \<open>(len(text) + 3) / 4\<close> on non-negative operands.\<close>

definition estimateTokens :: "string \<Rightarrow> int" where
  "estimateTokens text = (int (length text) + 3) div 4"

text \<open>
  \<open>Count\<close> looks the encoder up in the cache, asks the library when the cache has none,
  falls back to \<open>estimateTokens\<close> when the library fails, and caches a fresh encoder.
  Its error result is \<open>nil\<close> on every path of the source; the sum type keeps the
  signature so that callers' error branches can be modelled.
\<close>

definition Count ::
  "(string \<Rightarrow> encoder option) \<Rightarrow> TokenCounter \<Rightarrow> string \<Rightarrow> string
     \<Rightarrow> (error + int) \<times> TokenCounter" where
  "Count ge tc text model =
     (let encoding = getEncodingName model in
      case encoders tc encoding of
        Some encoder \<Rightarrow> (Inr (int (length (encoder text))), tc)
      | None \<Rightarrow>
          (case ge encoding of
             None \<Rightarrow> (Inr (estimateTokens text), tc)
           | Some encoder \<Rightarrow>
               (Inr (int (length (encoder text))),
                tc\<lparr>encoders := (encoders tc)(encoding \<mapsto> encoder)\<rparr>)))"

text \<open>\<open>CountMessages\<close> is not used by the context builder and is omitted.\<close>

section \<open>Context assembly (package conversation, context.go)\<close>

record Message =
  Role :: string
  Content :: string
  Tokens :: int
  MessageID :: string

record ContextBuilder =
  counter :: TokenCounter
  maxTokens :: int
  reserveTokens :: int

definition NewContextBuilder :: "int \<Rightarrow> int \<Rightarrow> ContextBuilder" where
  "NewContextBuilder maxTokens' reserveTokens' =
     \<lparr>counter = NewTokenCounter, maxTokens = maxTokens', reserveTokens = reserveTokens'\<rparr>"

text \<open>
  The block of the loop body that determines \<open>msgTokens\<close>: the stored count when it is
  not zero, otherwise a fresh count of the content plus 4.
\<close>

definition msgTokens_of ::
  "(string \<Rightarrow> encoder option) \<Rightarrow> TokenCounter \<Rightarrow> string \<Rightarrow> Message
     \<Rightarrow> (error + int) \<times> TokenCounter" where
  "msgTokens_of ge tc model msg =
     (if Tokens msg = 0
      then (case Count ge tc (Content msg) model of
              (Inl err, tc') \<Rightarrow> (Inl err, tc')
            | (Inr count, tc') \<Rightarrow> (Inr (add64 count 4), tc'))
      else (Inr (Tokens msg), tc))"

text \<open>
  The loop \<open>for i := len(messages) - 1; i >= 0; i--\<close>.  Its fourth argument is the part
  of the history still to be visited, newest message first; \<open>result\<close> and \<open>totalTokens\<close>
  are the loop's variables.  \<open>break\<close> and the end of the history both leave the loop
  with the current \<open>result\<close>; an error of \<open>Count\<close> returns at once.
\<close>

fun Build_loop ::
  "(string \<Rightarrow> encoder option) \<Rightarrow> string \<Rightarrow> int \<Rightarrow> Message list \<Rightarrow> TokenCounter
     \<Rightarrow> Message list \<Rightarrow> int \<Rightarrow> (error + Message list \<times> int) \<times> TokenCounter" where
  "Build_loop ge model availableTokens [] tc result totalTokens =
     (Inr (result, totalTokens), tc)"
| "Build_loop ge model availableTokens (msg # older) tc result totalTokens =
     (case msgTokens_of ge tc model msg of
        (Inl err, tc') \<Rightarrow> (Inl err, tc')
      | (Inr msgTokens, tc') \<Rightarrow>
          if add64 totalTokens msgTokens > availableTokens
          then (Inr (result, totalTokens), tc')
          else Build_loop ge model availableTokens older tc'
                 (result @ [msg]) (add64 totalTokens msgTokens))"

text \<open>The final swap loop reverses \<open>result[1:]\<close> in place when \<open>len(result) > 1\<close>.\<close>

definition reverse_after_first :: "'a list \<Rightarrow> 'a list" where
  "reverse_after_first result =
     (if length result > 1 then hd result # rev (tl result) else result)"

definition system_message :: "string \<Rightarrow> int \<Rightarrow> Message" where
  "system_message systemPrompt systemTokens =
     \<lparr>Role = ''system'', Content = systemPrompt, Tokens = systemTokens, MessageID = []\<rparr>"

definition Build ::
  "(string \<Rightarrow> encoder option) \<Rightarrow> ContextBuilder \<Rightarrow> Message list \<Rightarrow> string \<Rightarrow> string
     \<Rightarrow> (error + Message list \<times> int) \<times> ContextBuilder" where
  "Build ge cb messages systemPrompt model =
     (let availableTokens = sub64 (maxTokens cb) (reserveTokens cb) in
      case Count ge (counter cb) systemPrompt model of
        (Inl err, tc) \<Rightarrow> (Inl err, cb\<lparr>counter := tc\<rparr>)
      | (Inr n, tc) \<Rightarrow>
          (let systemTokens = add64 n 4;
               remainingTokens = sub64 availableTokens systemTokens
           in if remainingTokens \<le> 0
              then (Inr ([system_message systemPrompt systemTokens], systemTokens),
                    cb\<lparr>counter := tc\<rparr>)
              else (case Build_loop ge model availableTokens (rev messages) tc
                           [system_message systemPrompt systemTokens] systemTokens of
                      (Inl err, tc') \<Rightarrow> (Inl err, cb\<lparr>counter := tc'\<rparr>)
                    | (Inr (result, totalTokens), tc') \<Rightarrow>
                        (Inr (reverse_after_first result, totalTokens),
                         cb\<lparr>counter := tc'\<rparr>))))"

definition WillFit :: "ContextBuilder \<Rightarrow> int \<Rightarrow> int \<Rightarrow> bool" where
  "WillFit cb currentTokens newMessageTokens =
     (add64 (add64 currentTokens newMessageTokens) (reserveTokens cb) \<le> maxTokens cb)"

subsection \<open>Vocabulary for the statements about \<open>Build\<close>\<close>

text \<open>
  \<open>content_cost\<close> is the number \<open>Count\<close> returns for a text.  \<open>charged\<close> is what the
  loop charges for a history message: the stored count when it is not zero, otherwise
  the content cost plus the overhead of 4, added as the code adds it.
  \<open>newest_that_fit64\<close> is the walk of the loop with the code's 64-bit test: keep a
  message while the wrapped running sum with its cost is not above the budget, stop at
  the first where it is.  \<open>newest_that_fit\<close> is the same walk in exact arithmetic, the
  selection as the specification words it.  \<open>tokens_in_range\<close> bounds the budget and
  the costs so that no sum of the builder leaves the 64-bit range: both budget
  parameters are at most \<open>2 ^ 61\<close> in absolute value, and every stored count is at
  least 0 and, like every content cost involved, below \<open>2 ^ 61\<close>.
\<close>

definition content_cost ::
  "(string \<Rightarrow> encoder option) \<Rightarrow> TokenCounter \<Rightarrow> string \<Rightarrow> string \<Rightarrow> int" where
  "content_cost ge tc text model = (case fst (Count ge tc text model) of Inr n \<Rightarrow> n | Inl err \<Rightarrow> 0)"

definition charged ::
  "(string \<Rightarrow> encoder option) \<Rightarrow> TokenCounter \<Rightarrow> string \<Rightarrow> Message \<Rightarrow> int" where
  "charged ge tc model msg =
     (if Tokens msg \<noteq> 0 then Tokens msg
      else add64 (content_cost ge tc (Content msg) model) 4)"

fun newest_that_fit64 :: "(Message \<Rightarrow> int) \<Rightarrow> int \<Rightarrow> int \<Rightarrow> Message list \<Rightarrow> Message list" where
  "newest_that_fit64 cost available running [] = []"
| "newest_that_fit64 cost available running (msg # older) =
     (if add64 running (cost msg) > available then []
      else msg # newest_that_fit64 cost available (add64 running (cost msg)) older)"

fun newest_that_fit :: "(Message \<Rightarrow> int) \<Rightarrow> int \<Rightarrow> int \<Rightarrow> Message list \<Rightarrow> Message list" where
  "newest_that_fit cost available running [] = []"
| "newest_that_fit cost available running (msg # older) =
     (if running + cost msg > available then []
      else msg # newest_that_fit cost available (running + cost msg) older)"

definition tokens_in_range ::
  "(string \<Rightarrow> encoder option) \<Rightarrow> ContextBuilder \<Rightarrow> Message list \<Rightarrow> string \<Rightarrow> string \<Rightarrow> bool" where
  "tokens_in_range ge cb messages systemPrompt model =
     (\<bar>maxTokens cb\<bar> \<le> 2 ^ 61 \<and> \<bar>reserveTokens cb\<bar> \<le> 2 ^ 61 \<and>
      content_cost ge (counter cb) systemPrompt model < 2 ^ 61 \<and>
      (\<forall>msg \<in> set messages.
         0 \<le> Tokens msg \<and> Tokens msg < 2 ^ 61 \<and>
         content_cost ge (counter cb) (Content msg) model < 2 ^ 61))"

text \<open>
  The number of characters of a UTF-8 text, as \<open>utf8.RuneCountInString\<close> counts them on
  well-formed text: the bytes that are not continuation bytes (\<open>0x80\<close> to \<open>0xBF\<close>).
\<close>

definition rune_count :: "string \<Rightarrow> nat" where
  "rune_count text =
     length (filter (\<lambda>c. \<not> (128 \<le> (of_char c :: nat) \<and> (of_char c :: nat) < 192)) text)"

section \<open>Role-based access control (package config and package rbac)\<close>

text \<open>Of the configuration records, the fields read by the access-control manager.\<close>

record RoleConfig =
  DiscordRole :: string
  Permissions :: "string list"
  AllowedModels :: "string list"

record RBACConfig =
  Roles :: "RoleConfig list"

record GuildConfig =
  ID :: string
  EnabledModels :: "string list"
  RBAC :: RBACConfig

record Config =
  Guilds :: "GuildConfig list"

datatype config_error = GuildNotFound string

text \<open>\<open>Config.GetGuild\<close>: the first guild with the given id.\<close>

fun GetGuild_loop :: "GuildConfig list \<Rightarrow> string \<Rightarrow> config_error + GuildConfig" where
  "GetGuild_loop [] guildID = Inl (GuildNotFound guildID)"
| "GetGuild_loop (g # gs) guildID = (if ID g = guildID then Inr g else GetGuild_loop gs guildID)"

definition GetGuild :: "Config \<Rightarrow> string \<Rightarrow> config_error + GuildConfig" where
  "GetGuild c guildID = GetGuild_loop (Guilds c) guildID"

record Manager =
  config :: Config

text \<open>Of \<open>discordgo.Member\<close> only the role list is read; callers pass a non-nil member.\<close>

record Member =
  Member_Roles :: "string list"

definition getRoleNames :: "Manager \<Rightarrow> string \<Rightarrow> Member \<Rightarrow> string list" where
  "getRoleNames m guildID member = Member_Roles member"

fun contains :: "string list \<Rightarrow> string \<Rightarrow> bool" where
  "contains [] item = False"
| "contains (s # slice) item = (if s = item then True else contains slice item)"

text \<open>\<open>strings.HasPrefix\<close> and \<open>strings.HasSuffix\<close> of the Go standard library.\<close>

definition strings_HasPrefix :: "string \<Rightarrow> string \<Rightarrow> bool" where
  "strings_HasPrefix s pre = (length s \<ge> length pre \<and> take (length pre) s = pre)"

definition strings_HasSuffix :: "string \<Rightarrow> string \<Rightarrow> bool" where
  "strings_HasSuffix s suf = (length s \<ge> length suf \<and> drop (length s - length suf) s = suf)"

definition matchesModelPattern :: "string \<Rightarrow> string \<Rightarrow> bool" where
  "matchesModelPattern modelRef pattern =
     (if pattern = ''*'' then True
      else if modelRef = pattern then True
      else if strings_HasSuffix pattern ''/*''
           then strings_HasPrefix modelRef (take (length pattern - 2) pattern @ ''/'')
      else False)"

text \<open>\<open>roleSkipped\<close> is the test that makes the three role loops \<open>continue\<close>.\<close>

definition roleSkipped :: "string list \<Rightarrow> RoleConfig \<Rightarrow> bool" where
  "roleSkipped roleNames roleConfig =
     (\<not> contains roleNames (DiscordRole roleConfig) \<and> DiscordRole roleConfig \<noteq> ''@everyone'')"

fun HasPermission_perms :: "string list \<Rightarrow> string \<Rightarrow> bool" where
  "HasPermission_perms [] perm = False"
| "HasPermission_perms (p # ps) perm = (if p = perm then True else HasPermission_perms ps perm)"

fun HasPermission_roles :: "RoleConfig list \<Rightarrow> string list \<Rightarrow> string \<Rightarrow> bool" where
  "HasPermission_roles [] roleNames perm = False"
| "HasPermission_roles (roleConfig # rest) roleNames perm =
     (if roleSkipped roleNames roleConfig then HasPermission_roles rest roleNames perm
      else if HasPermission_perms (Permissions roleConfig) perm then True
      else HasPermission_roles rest roleNames perm)"

definition HasPermission :: "Manager \<Rightarrow> string \<Rightarrow> Member \<Rightarrow> string \<Rightarrow> bool" where
  "HasPermission m guildID member perm =
     (case GetGuild (config m) guildID of
        Inl err \<Rightarrow> False
      | Inr guildCfg \<Rightarrow>
          HasPermission_roles (Roles (RBAC guildCfg)) (getRoleNames m guildID member) perm)"

fun CanUseModel_patterns :: "string list \<Rightarrow> string \<Rightarrow> bool" where
  "CanUseModel_patterns [] modelRef = False"
| "CanUseModel_patterns (allowedModel # rest) modelRef =
     (if matchesModelPattern modelRef allowedModel then True
      else CanUseModel_patterns rest modelRef)"

fun CanUseModel_roles :: "RoleConfig list \<Rightarrow> string list \<Rightarrow> string \<Rightarrow> bool" where
  "CanUseModel_roles [] roleNames modelRef = False"
| "CanUseModel_roles (roleConfig # rest) roleNames modelRef =
     (if roleSkipped roleNames roleConfig then CanUseModel_roles rest roleNames modelRef
      else if CanUseModel_patterns (AllowedModels roleConfig) modelRef then True
      else CanUseModel_roles rest roleNames modelRef)"

definition CanUseModel :: "Manager \<Rightarrow> string \<Rightarrow> Member \<Rightarrow> string \<Rightarrow> bool" where
  "CanUseModel m guildID member modelRef =
     (case GetGuild (config m) guildID of
        Inl err \<Rightarrow> False
      | Inr guildCfg \<Rightarrow>
          CanUseModel_roles (Roles (RBAC guildCfg)) (getRoleNames m guildID member) modelRef)"

text \<open>
  \<open>GetAllowedModels\<close> collects models in a Go \<open>map[string]bool\<close> whose values are all
  \<open>true\<close> and returns its keys in the unspecified order of a map iteration.  The map is
  modelled by the list of its keys in order of first insertion; the statements below
  speak of the set of returned models only.  \<open>None\<close> is the early \<open>return
  guildCfg.EnabledModels\<close> taken at the pattern \<open>"*"\<close>.
\<close>

definition set_true :: "string list \<Rightarrow> string \<Rightarrow> string list" where
  "set_true allowed key = (if key \<in> set allowed then allowed else allowed @ [key])"

fun GetAllowedModels_enabled :: "string list \<Rightarrow> string \<Rightarrow> string list \<Rightarrow> string list" where
  "GetAllowedModels_enabled [] pattern allowed = allowed"
| "GetAllowedModels_enabled (enabledModel # rest) pattern allowed =
     GetAllowedModels_enabled rest pattern
       (if matchesModelPattern enabledModel pattern then set_true allowed enabledModel
        else allowed)"

fun GetAllowedModels_patterns ::
  "string list \<Rightarrow> string list \<Rightarrow> string list \<Rightarrow> string list option" where
  "GetAllowedModels_patterns enabled [] allowed = Some allowed"
| "GetAllowedModels_patterns enabled (pattern # rest) allowed =
     (if pattern = ''*'' then None
      else GetAllowedModels_patterns enabled rest
             (GetAllowedModels_enabled enabled pattern allowed))"

fun GetAllowedModels_roles ::
  "string list \<Rightarrow> RoleConfig list \<Rightarrow> string list \<Rightarrow> string list \<Rightarrow> string list option" where
  "GetAllowedModels_roles enabled [] roleNames allowed = Some allowed"
| "GetAllowedModels_roles enabled (roleConfig # rest) roleNames allowed =
     (if roleSkipped roleNames roleConfig
      then GetAllowedModels_roles enabled rest roleNames allowed
      else (case GetAllowedModels_patterns enabled (AllowedModels roleConfig) allowed of
              None \<Rightarrow> None
            | Some allowed' \<Rightarrow> GetAllowedModels_roles enabled rest roleNames allowed'))"

definition GetAllowedModels :: "Manager \<Rightarrow> string \<Rightarrow> Member \<Rightarrow> string list" where
  "GetAllowedModels m guildID member =
     (case GetGuild (config m) guildID of
        Inl err \<Rightarrow> []
      | Inr guildCfg \<Rightarrow>
          (case GetAllowedModels_roles (EnabledModels guildCfg) (Roles (RBAC guildCfg))
                  (getRoleNames m guildID member) [] of
             None \<Rightarrow> EnabledModels guildCfg
           | Some allowed \<Rightarrow> allowed))"

definition NewManager :: "Config \<Rightarrow> Manager" where
  "NewManager cfg = \<lparr>config = cfg\<rparr>"

text \<open>The guild of \<open>getTestConfig\<close> in rbac_test.go, used for concrete instances.\<close>

definition getTestConfig :: Config where
  "getTestConfig =
     \<lparr>Guilds =
        [\<lparr>ID = ''test-guild'',
          EnabledModels =
            [''ollama/llama3.2'', ''ollama/codellama'', ''openai/gpt-4o'', ''openai/gpt-4o-mini''],
          RBAC =
            \<lparr>Roles =
               [\<lparr>DiscordRole = ''Admin'',
                 Permissions = [''use_models'', ''manage_prompts'', ''unlimited_tokens''],
                 AllowedModels = [''*'']\<rparr>,
                \<lparr>DiscordRole = ''Pro'',
                 Permissions = [''use_models''],
                 AllowedModels = [''ollama/*'', ''openai/gpt-4o-mini'']\<rparr>,
                \<lparr>DiscordRole = ''Member'',
                 Permissions = [''use_models''],
                 AllowedModels = [''ollama/llama3.2'']\<rparr>]\<rparr>\<rparr>]\<rparr>"

section \<open>Counter keys (package storage, keys.go)\<close>

text \<open>The verb \<open>%d\<close> of \<open>fmt.Sprintf\<close>: decimal digits, with a minus sign when negative.\<close>

definition digit_char :: "nat \<Rightarrow> char" where
  "digit_char d = ''0123456789'' ! d"

function decimal :: "nat \<Rightarrow> string" where
  "decimal n = (if n < 10 then [digit_char n] else decimal (n div 10) @ [digit_char (n mod 10)])"
  by pat_completeness auto
termination
  by (relation "measure id") auto

declare decimal.simps [simp del]

definition format_d :: "int \<Rightarrow> string" where
  "format_d i = (if i < 0 then CHR ''-'' # decimal (nat (- i)) else decimal (nat i))"

record Keys =
  prefix :: string

definition RateLimitMinute :: "Keys \<Rightarrow> string \<Rightarrow> string \<Rightarrow> string" where
  "RateLimitMinute k guildID userID = prefix k @ guildID @ '':ratelimit:'' @ userID @ '':minute''"

definition RateLimitHour :: "Keys \<Rightarrow> string \<Rightarrow> string \<Rightarrow> string" where
  "RateLimitHour k guildID userID = prefix k @ guildID @ '':ratelimit:'' @ userID @ '':hour''"

definition TokenLimit :: "Keys \<Rightarrow> string \<Rightarrow> string \<Rightarrow> int \<Rightarrow> string" where
  "TokenLimit k guildID userID periodStart =
     prefix k @ guildID @ '':tokens:'' @ userID @ '':'' @ format_d periodStart"

section \<open>The counter store\<close>

text \<open>
  The Redis server is outside the repository.  Its keyspace is modelled as a map from
  keys to an integer value with an optional absolute expiry time, and the five commands
  the scripts issue are modelled after the Redis command reference, with time in whole
  seconds: an entry whose expiry time has been reached does not exist; \<open>TTL\<close> answers
  -2 for a missing key and -1 for a key without expiry; \<open>SET key v EX n\<close> is an error
  unless \<open>n\<close> is positive; \<open>INCR\<close> and \<open>INCRBY\<close> keep the expiry of an existing key and
  create a missing key without expiry.  A script runs as one indivisible step of the
  server, which is why a script is a function from the store to a reply and a store.
  Failures of the connection are not modelled: the only error of \<open>EvalSha\<close> below is an
  error raised inside the script.
\<close>

record entry =
  val :: int
  expire_at :: "int option"

type_synonym redis = "string \<rightharpoonup> entry"

definition lookup :: "redis \<Rightarrow> int \<Rightarrow> string \<Rightarrow> entry option" where
  "lookup db now key =
     (case db key of
        None \<Rightarrow> None
      | Some e \<Rightarrow>
          (case expire_at e of
             None \<Rightarrow> Some e
           | Some t \<Rightarrow> if t \<le> now then None else Some e))"

definition redis_GET :: "redis \<Rightarrow> int \<Rightarrow> string \<Rightarrow> int option" where
  "redis_GET db now key = map_option val (lookup db now key)"

definition redis_TTL :: "redis \<Rightarrow> int \<Rightarrow> string \<Rightarrow> int" where
  "redis_TTL db now key =
     (case lookup db now key of
        None \<Rightarrow> - 2
      | Some e \<Rightarrow> (case expire_at e of None \<Rightarrow> - 1 | Some t \<Rightarrow> t - now))"

definition redis_SET_EX :: "redis \<Rightarrow> int \<Rightarrow> string \<Rightarrow> int \<Rightarrow> int \<Rightarrow> error + redis" where
  "redis_SET_EX db now key v seconds =
     (if seconds \<le> 0 then Inl ScriptFailed
      else Inr (db(key \<mapsto> \<lparr>val = v, expire_at = Some (now + seconds)\<rparr>)))"

definition redis_INCRBY :: "redis \<Rightarrow> int \<Rightarrow> string \<Rightarrow> int \<Rightarrow> redis" where
  "redis_INCRBY db now key d =
     (case lookup db now key of
        None \<Rightarrow> db(key \<mapsto> \<lparr>val = d, expire_at = None\<rparr>)
      | Some e \<Rightarrow> db(key \<mapsto> e\<lparr>val := val e + d\<rparr>))"

definition redis_INCR :: "redis \<Rightarrow> int \<Rightarrow> string \<Rightarrow> redis" where
  "redis_INCR db now key = redis_INCRBY db now key 1"

text \<open>\<open>tonumber(redis.call('GET', key) or "0")\<close>.\<close>

definition get_or_0 :: "redis \<Rightarrow> int \<Rightarrow> string \<Rightarrow> int" where
  "get_or_0 db now key = (case redis_GET db now key of None \<Rightarrow> 0 | Some v \<Rightarrow> v)"

section \<open>The quota scripts (ratelimit.lua, token_limit.lua, limiter.go)\<close>

text \<open>
  \<open>rateLimitScript\<close> with \<open>KEYS[1]\<close>, \<open>KEYS[2]\<close> and \<open>ARGV[1]\<close> to \<open>ARGV[4]\<close>.  The Lua
  expression \<open>ttl > 0 and ttl or 60\<close> is \<open>ttl\<close> when it is positive and 60 otherwise.
\<close>

definition rateLimitScript ::
  "redis \<Rightarrow> int \<Rightarrow> string \<Rightarrow> string \<Rightarrow> int \<Rightarrow> int \<Rightarrow> int \<Rightarrow> int \<Rightarrow> (error + int list) \<times> redis" where
  "rateLimitScript db now KEYS1 KEYS2 ARGV1 ARGV2 ARGV3 ARGV4 =
     (let minute = get_or_0 db now KEYS1;
          hour = get_or_0 db now KEYS2;
          minute_limit = ARGV1;
          hour_limit = ARGV2
      in if minute_limit > 0 \<and> minute \<ge> minute_limit
         then (let ttl = redis_TTL db now KEYS1
               in (Inr [- 1, if ttl > 0 then ttl else 60], db))
         else if hour_limit > 0 \<and> hour \<ge> hour_limit
         then (let ttl = redis_TTL db now KEYS2
               in (Inr [- 2, if ttl > 0 then ttl else 3600], db))
         else (case (if minute = 0 then redis_SET_EX db now KEYS1 1 ARGV3
                     else Inr (redis_INCR db now KEYS1)) of
                 Inl err \<Rightarrow> (Inl err, db)
               | Inr db1 \<Rightarrow>
                   (case (if hour = 0 then redis_SET_EX db1 now KEYS2 1 ARGV4
                          else Inr (redis_INCR db1 now KEYS2)) of
                      Inl err \<Rightarrow> (Inl err, db1)
                    | Inr db2 \<Rightarrow> (Inr [1, 0], db2))))"

text \<open>\<open>tokenLimitScript\<close> with \<open>KEYS[1]\<close> and \<open>ARGV[1]\<close> to \<open>ARGV[3]\<close>.\<close>

definition tokenLimitScript ::
  "redis \<Rightarrow> int \<Rightarrow> string \<Rightarrow> int \<Rightarrow> int \<Rightarrow> int \<Rightarrow> (error + int list) \<times> redis" where
  "tokenLimitScript db now KEYS1 ARGV1 ARGV2 ARGV3 =
     (let limit = ARGV1
      in if limit = 0 then (Inr [1, 0, 0, 0], db)
         else (let used = get_or_0 db now KEYS1;
                   to_add = ARGV3
               in if used + to_add > limit
                  then (let ttl = redis_TTL db now KEYS1
                        in (Inr [- 1, used, limit - used, if ttl > 0 then ttl else ARGV2], db))
                  else (case (if used = 0 then redis_SET_EX db now KEYS1 to_add ARGV2
                              else Inr (redis_INCRBY db now KEYS1 to_add)) of
                          Inl err \<Rightarrow> (Inl err, db)
                        | Inr db' \<Rightarrow>
                            (Inr [1, used + to_add, limit - (used + to_add), 0], db'))))"

section \<open>The limiter (package ratelimit, limiter.go)\<close>

record RateLimit =
  RequestsPerMinute :: int
  RequestsPerHour :: int

record TokenLimit_config =
  Bypass :: bool
  TokensPerPeriod :: int
  PeriodHours :: int

record Client =
  keys :: Keys

record Limiter =
  client :: Client

record RateLimitResult =
  Allowed :: bool
  SecondsToReset :: int
  LimitType :: string

record TokenLimitResult =
  Allowed :: bool
  TokensUsed :: int
  TokensRemaining :: int
  SecondsToReset :: int

text \<open>
  \<open>CheckRateLimit\<close> runs the script on the two keys of the user and decodes the reply.
  The store before the call and the time of the call are arguments; the store after the
  call is returned with the result.
\<close>

definition CheckRateLimit ::
  "Limiter \<Rightarrow> redis \<Rightarrow> int \<Rightarrow> string \<Rightarrow> string \<Rightarrow> RateLimit
     \<Rightarrow> (error + RateLimitResult) \<times> redis" where
  "CheckRateLimit l db now guildID userID limits =
     (let minuteKey = RateLimitMinute (keys (client l)) guildID userID;
          hourKey = RateLimitHour (keys (client l)) guildID userID
      in case rateLimitScript db now minuteKey hourKey
                (RequestsPerMinute limits) (RequestsPerHour limits) 60 3600 of
           (Inl err, db') \<Rightarrow> (Inl err, db')
         | (Inr values, db') \<Rightarrow>
             (case values of
                [status, seconds] \<Rightarrow>
                  (if status = 1
                   then (Inr \<lparr>RateLimitResult.Allowed = True,
                              RateLimitResult.SecondsToReset = 0, LimitType = []\<rparr>, db')
                   else if status = - 1
                   then (Inr \<lparr>RateLimitResult.Allowed = False,
                              RateLimitResult.SecondsToReset = seconds,
                              LimitType = ''minute''\<rparr>, db')
                   else if status = - 2
                   then (Inr \<lparr>RateLimitResult.Allowed = False,
                              RateLimitResult.SecondsToReset = seconds,
                              LimitType = ''hour''\<rparr>, db')
                   else (Inl (UnknownStatus status), db'))
              | _ \<Rightarrow> (Inl UnexpectedFormat, db')))"

text \<open>
  \<open>CheckTokenLimit\<close>.  \<open>now\<close> is \<open>time.Now().Unix()\<close>.  A period of zero seconds makes
  the division \<open>now.Unix() / periodSeconds\<close> panic, which is the result
  \<open>Inl DivideByZero\<close>.
\<close>

definition CheckTokenLimit ::
  "Limiter \<Rightarrow> redis \<Rightarrow> int \<Rightarrow> string \<Rightarrow> string \<Rightarrow> TokenLimit_config \<Rightarrow> int
     \<Rightarrow> (error + TokenLimitResult) \<times> redis" where
  "CheckTokenLimit l db now guildID userID limit tokensToAdd =
     (if Bypass limit
      then (Inr \<lparr>Allowed = True, TokensUsed = 0, TokensRemaining = 0, SecondsToReset = 0\<rparr>, db)
      else (let periodSeconds = mul64 (PeriodHours limit) 3600
            in if periodSeconds = 0 then (Inl DivideByZero, db)
               else (let periodStart = mul64 (quo64 now periodSeconds) periodSeconds;
                         key = TokenLimit (keys (client l)) guildID userID periodStart;
                         tokenLimit = TokensPerPeriod limit
                     in case tokenLimitScript db now key tokenLimit periodSeconds tokensToAdd of
                          (Inl err, db') \<Rightarrow> (Inl err, db')
                        | (Inr values, db') \<Rightarrow>
                            (case values of
                               [status, used, remaining, seconds] \<Rightarrow>
                                 (if status = 1
                                  then (Inr \<lparr>Allowed = True, TokensUsed = used,
                                             TokensRemaining = remaining,
                                             SecondsToReset = 0\<rparr>, db')
                                  else (Inr \<lparr>Allowed = False, TokensUsed = used,
                                             TokensRemaining = remaining,
                                             SecondsToReset = seconds\<rparr>, db'))
                             | _ \<Rightarrow> (Inl UnexpectedFormat, db')))))"

text \<open>\<open>GetCurrentUsage\<close>: the stored usage of the current period, 0 when the key is missing.\<close>

definition GetCurrentUsage :: "Limiter \<Rightarrow> redis \<Rightarrow> int \<Rightarrow> string \<Rightarrow> string \<Rightarrow> int \<Rightarrow> error + int" where
  "GetCurrentUsage l db now guildID userID periodHours =
     (let periodSeconds = mul64 periodHours 3600
      in if periodSeconds = 0 then Inl DivideByZero
         else (let periodStart = mul64 (quo64 now periodSeconds) periodSeconds;
                   key = TokenLimit (keys (client l)) guildID userID periodStart
               in case redis_GET db now key of None \<Rightarrow> Inr 0 | Some v \<Rightarrow> Inr v))"

subsection \<open>Vocabulary for the statements about the limiter\<close>

text \<open>
  The keys \<open>CheckRateLimit\<close> and \<open>CheckTokenLimit\<close> compute for a user, the period
  length in seconds as \<open>CheckTokenLimit\<close> computes it, and the limiter of
  limiter_test.go, whose key prefix is \<open>test:\<close>.
\<close>

definition minuteKey_of :: "Limiter \<Rightarrow> string \<Rightarrow> string \<Rightarrow> string" where
  "minuteKey_of l guildID userID = RateLimitMinute (keys (client l)) guildID userID"

definition hourKey_of :: "Limiter \<Rightarrow> string \<Rightarrow> string \<Rightarrow> string" where
  "hourKey_of l guildID userID = RateLimitHour (keys (client l)) guildID userID"

definition periodSeconds_of :: "TokenLimit_config \<Rightarrow> int" where
  "periodSeconds_of limit = mul64 (PeriodHours limit) 3600"

definition tokenKey_of :: "Limiter \<Rightarrow> int \<Rightarrow> string \<Rightarrow> string \<Rightarrow> TokenLimit_config \<Rightarrow> string" where
  "tokenKey_of l now guildID userID limit =
     TokenLimit (keys (client l)) guildID userID
       (mul64 (quo64 now (periodSeconds_of limit)) (periodSeconds_of limit))"

definition testLimiter :: Limiter where
  "testLimiter = \<lparr>client = \<lparr>keys = \<lparr>prefix = ''test:''\<rparr>\<rparr>\<rparr>"

section \<open>Token counting never fails\<close>

lemma estimateTokens_ceiling:
  "estimateTokens text = \<lceil>real (length text) / 4\<rceil>"
proof -
  have "\<lceil>real (length text) / 4\<rceil> = \<lceil>real_of_int (int (length text)) / real_of_int 4\<rceil>"
    by simp
  also have "\<dots> = - ((- int (length text)) div 4)"
    by (simp only: ceiling_divide_eq_div)
  also have "\<dots> = (int (length text) + 3) div 4"
    by presburger
  finally show ?thesis
    by (simp add: estimateTokens_def)
qed

text \<open>
  C9, as amended.  For every text and every model reference, \<open>Count\<close> returns a
  non-negative integer and no error; when neither the cache nor the library has an
  encoder for the model's encoding family, the result is the heuristic estimate, the
  length of the text in bytes (what Go's \<open>len\<close> counts) divided by four and rounded up,
  and the cache is unchanged.
\<close>

theorem Count_never_fails:
  "\<exists>n. fst (Count ge tc text model) = Inr n \<and> 0 \<le> n \<and>
       (encoders tc (getEncodingName model) = None \<and> ge (getEncodingName model) = None
          \<longrightarrow> n = \<lceil>real (length text) / 4\<rceil> \<and> snd (Count ge tc text model) = tc)"
proof (cases "encoders tc (getEncodingName model)")
  case (Some e)
  then show ?thesis by (simp add: Count_def)
next
  case None
  show ?thesis
  proof (cases "ge (getEncodingName model)")
    case (Some e)
    with None show ?thesis by (simp add: Count_def)
  next
    case ge_None: None
    have "0 \<le> estimateTokens text" by (simp add: estimateTokens_def)
    with None ge_None show ?thesis
      by (simp add: Count_def estimateTokens_ceiling [symmetric])
  qed
qed

theorem Count_never_fails_witness:
  "\<exists>n. fst (Count (\<lambda>_. None) NewTokenCounter
              [CHR 0xC3, CHR 0xA9, CHR 0xC3, CHR 0xA9, CHR 0xC3, CHR 0xA9]
              ''some/unknown-model'') = Inr n \<and> 0 \<le> n \<and>
       n = 2 \<and> encoders NewTokenCounter (getEncodingName ''some/unknown-model'') = None"
  using Count_never_fails [of "\<lambda>_. None" NewTokenCounter
      "[CHR 0xC3, CHR 0xA9, CHR 0xC3, CHR 0xA9, CHR 0xC3, CHR 0xA9]" "''some/unknown-model''"]
  by (auto simp: NewTokenCounter_def)

text \<open>
  The claim C9 as stated fails on text outside ASCII.  The text of the three characters
  U+00E9 is six bytes in UTF-8; with no encoder available \<open>Count\<close> returns 2, the
  estimate from six bytes, where a quarter of the three characters, rounded up, is 1.
\<close>

theorem Count_estimates_bytes_counterexample:
  "encoders NewTokenCounter (getEncodingName ''some/unknown-model'') = None \<and>
   rune_count [CHR 0xC3, CHR 0xA9, CHR 0xC3, CHR 0xA9, CHR 0xC3, CHR 0xA9] = 3 \<and>
   \<lceil>real (rune_count [CHR 0xC3, CHR 0xA9, CHR 0xC3, CHR 0xA9, CHR 0xC3, CHR 0xA9]) / 4\<rceil> = 1 \<and>
   fst (Count (\<lambda>_. None) NewTokenCounter
          [CHR 0xC3, CHR 0xA9, CHR 0xC3, CHR 0xA9, CHR 0xC3, CHR 0xA9]
          ''some/unknown-model'') = Inr 2"
proof -
  have r: "rune_count [CHR 0xC3, CHR 0xA9, CHR 0xC3, CHR 0xA9, CHR 0xC3, CHR 0xA9] = 3"
    by (simp add: rune_count_def)
  have c: "\<lceil>real 3 / 4\<rceil> = (1::int)" by simp
  from r c show ?thesis
    by (simp add: Count_def NewTokenCounter_def estimateTokens_def)
qed

section \<open>Properties of the context builder\<close>

lemma wrap64_id: "- (2 ^ 63) \<le> x \<Longrightarrow> x < 2 ^ 63 \<Longrightarrow> wrap64 x = x"
  by (simp add: wrap64_def)

lemma wrap64_add_left: "wrap64 (wrap64 a + b) = wrap64 (a + b)"
proof -
  have "(wrap64 a + b + 2 ^ 63) mod 2 ^ 64 = ((a + 2 ^ 63) mod 2 ^ 64 + b) mod (2 ^ 64 :: int)"
    by (simp add: wrap64_def)
  also have "\<dots> = (a + 2 ^ 63 + b) mod 2 ^ 64"
    by (rule mod_add_left_eq)
  also have "a + 2 ^ 63 + b = a + b + (2 ^ 63 :: int)"
    by simp
  finally show ?thesis
    unfolding wrap64_def [of "wrap64 a + b"] wrap64_def [of "a + b"] by simp
qed

lemma wrap64_idem: "wrap64 (wrap64 a) = wrap64 a"
  using wrap64_add_left [of a 0] by simp

lemma Count_fst:
  "fst (Count ge tc text model) =
     Inr (case (ge ++ encoders tc) (getEncodingName model) of
            None \<Rightarrow> estimateTokens text | Some e \<Rightarrow> int (length (e text)))"
  by (simp add: Count_def Let_def map_add_def split: option.splits)

lemma Count_snd:
  "ge ++ encoders (snd (Count ge tc text model)) = ge ++ encoders tc"
proof (cases "encoders tc (getEncodingName model)")
  case (Some e)
  then show ?thesis by (simp add: Count_def)
next
  case None
  show ?thesis
  proof (cases "ge (getEncodingName model)")
    case ge_None: None
    with None show ?thesis by (simp add: Count_def)
  next
    case (Some e)
    have "ge ++ (encoders tc)(getEncodingName model \<mapsto> e) = ge ++ encoders tc"
    proof
      fix k show "(ge ++ (encoders tc)(getEncodingName model \<mapsto> e)) k = (ge ++ encoders tc) k"
        using None Some by (cases "k = getEncodingName model") (simp_all add: map_add_def)
    qed
    with None Some show ?thesis by (simp add: Count_def)
  qed
qed

lemma content_cost_eq:
  "content_cost ge tc text model =
     (case (ge ++ encoders tc) (getEncodingName model) of
        None \<Rightarrow> estimateTokens text | Some e \<Rightarrow> int (length (e text)))"
  by (simp add: content_cost_def Count_fst)

lemma estimateTokens_nonneg: "0 \<le> estimateTokens text"
  by (simp add: estimateTokens_def)

lemma content_cost_nonneg: "0 \<le> content_cost ge tc text model"
  by (simp add: content_cost_eq estimateTokens_nonneg split: option.splits)

lemma charged_cong:
  "ge ++ encoders tc = ge ++ encoders tc' \<Longrightarrow> charged ge tc model msg = charged ge tc' model msg"
  by (simp add: charged_def content_cost_eq)

lemma msgTokens_of_eq:
  "\<exists>tc'. msgTokens_of ge tc model msg = (Inr (charged ge tc model msg), tc') \<and>
         ge ++ encoders tc' = ge ++ encoders tc"
proof (cases "Tokens msg = 0")
  case False
  then show ?thesis by (simp add: msgTokens_of_def charged_def)
next
  case True
  obtain r tc' where c: "Count ge tc (Content msg) model = (r, tc')"
    by (cases "Count ge tc (Content msg) model")
  from c Count_fst [of ge tc "Content msg" model]
  have r: "r = Inr (content_cost ge tc (Content msg) model)"
    by (simp add: content_cost_eq)
  from c Count_snd [of ge tc "Content msg" model]
  have "ge ++ encoders tc' = ge ++ encoders tc" by simp
  with True c r show ?thesis
    by (simp add: msgTokens_of_def charged_def)
qed

lemma Build_loop_selects:
  "ge ++ encoders tc = ge ++ encoders tc0 \<Longrightarrow> wrap64 running = running \<Longrightarrow>
   \<exists>tc'. Build_loop ge model available ms tc result running =
            (Inr (result @ newest_that_fit64 (charged ge tc0 model) available running ms,
                  wrap64 (running + sum_list (map (charged ge tc0 model)
                            (newest_that_fit64 (charged ge tc0 model) available running ms)))),
             tc')"
proof (induction ms arbitrary: tc result running)
  case Nil
  then show ?case by simp
next
  case (Cons msg older)
  obtain tc1 where m: "msgTokens_of ge tc model msg = (Inr (charged ge tc model msg), tc1)"
    and e: "ge ++ encoders tc1 = ge ++ encoders tc"
    using msgTokens_of_eq by blast
  have c: "charged ge tc model msg = charged ge tc0 model msg"
    using Cons.prems(1) by (rule charged_cong)
  show ?case
  proof (cases "add64 running (charged ge tc0 model msg) > available")
    case True
    with m c Cons.prems(2) show ?thesis by simp
  next
    case False
    from e Cons.prems have e0: "ge ++ encoders tc1 = ge ++ encoders tc0" by simp
    have w: "wrap64 (add64 running (charged ge tc0 model msg)) =
             add64 running (charged ge tc0 model msg)"
      by (simp add: add64_def wrap64_idem)
    from Cons.IH [OF e0 w, of "result @ [msg]"]
    obtain tc' where "Build_loop ge model available older tc1 (result @ [msg])
         (add64 running (charged ge tc0 model msg)) =
        (Inr ((result @ [msg]) @ newest_that_fit64 (charged ge tc0 model) available
                  (add64 running (charged ge tc0 model msg)) older,
              wrap64 (add64 running (charged ge tc0 model msg) +
              sum_list (map (charged ge tc0 model)
                 (newest_that_fit64 (charged ge tc0 model) available
                    (add64 running (charged ge tc0 model msg)) older)))), tc')"
      by blast
    moreover have "wrap64 (add64 running (charged ge tc0 model msg) +
              sum_list (map (charged ge tc0 model)
                 (newest_that_fit64 (charged ge tc0 model) available
                    (add64 running (charged ge tc0 model msg)) older))) =
          wrap64 (running + (charged ge tc0 model msg +
              sum_list (map (charged ge tc0 model)
                 (newest_that_fit64 (charged ge tc0 model) available
                    (add64 running (charged ge tc0 model msg)) older))))"
      unfolding add64_def by (simp only: wrap64_add_left add.assoc)
    ultimately show ?thesis using m c False by simp
  qed
qed

lemma newest_that_fit64_take:
  "take (length (newest_that_fit64 cost a t ms)) ms = newest_that_fit64 cost a t ms"
  by (induction ms arbitrary: t) auto

lemma newest_that_fit_take:
  "take (length (newest_that_fit cost a t ms)) ms = newest_that_fit cost a t ms"
  by (induction ms arbitrary: t) auto

lemma newest_that_fit_length: "length (newest_that_fit cost a t ms) \<le> length ms"
  by (induction ms arbitrary: t) auto

lemma newest_that_fit_partial:
  "t \<le> a \<Longrightarrow> j \<le> length (newest_that_fit cost a t ms) \<Longrightarrow>
   t + sum_list (map cost (take j ms)) \<le> a"
proof (induction ms arbitrary: t j)
  case Nil
  then show ?case by simp
next
  case (Cons m ms)
  show ?case
  proof (cases j)
    case 0
    with Cons.prems show ?thesis by simp
  next
    case (Suc i)
    with Cons.prems have fit: "\<not> t + cost m > a"
      by (auto split: if_splits)
    with Cons.prems Suc have "i \<le> length (newest_that_fit cost a (t + cost m) ms)"
      by simp
    from Cons.IH [OF _ this] fit have "t + cost m + sum_list (map cost (take i ms)) \<le> a"
      by simp
    with Suc show ?thesis by (simp add: add.assoc)
  qed
qed

lemma newest_that_fit_stop:
  "length (newest_that_fit cost a t ms) < length ms \<Longrightarrow>
   a < t + sum_list (map cost (newest_that_fit cost a t ms))
         + cost (ms ! length (newest_that_fit cost a t ms))"
proof (induction ms arbitrary: t)
  case Nil
  then show ?case by simp
next
  case (Cons m ms)
  show ?case
  proof (cases "t + cost m > a")
    case True
    then show ?thesis by simp
  next
    case False
    with Cons.prems have "length (newest_that_fit cost a (t + cost m) ms) < length ms"
      by simp
    from Cons.IH [OF this] False show ?thesis by (simp add: add.assoc)
  qed
qed

text \<open>Within the range the 64-bit walk is the exact walk.\<close>

lemma newest_that_fit64_exact:
  "\<forall>m \<in> set ms. 0 \<le> cost m \<and> cost m < 2 ^ 62 \<Longrightarrow> 0 \<le> t \<Longrightarrow> t \<le> a \<Longrightarrow> a \<le> 2 ^ 62 \<Longrightarrow>
   newest_that_fit64 cost a t ms = newest_that_fit cost a t ms"
proof (induction ms arbitrary: t)
  case Nil
  then show ?case by simp
next
  case (Cons m ms)
  from Cons.prems have c: "0 \<le> cost m" "cost m < 2 ^ 62" by simp_all
  with Cons.prems have "- (2 ^ 63) \<le> t + cost m" "t + cost m < 2 ^ 63" by simp_all
  then have w: "add64 t (cost m) = t + cost m"
    unfolding add64_def by (rule wrap64_id)
  show ?case
  proof (cases "t + cost m > a")
    case True
    with w show ?thesis by simp
  next
    case False
    from Cons.prems have rest: "\<forall>m \<in> set ms. 0 \<le> cost m \<and> cost m < 2 ^ 62" by simp
    from c Cons.prems have "0 \<le> t + cost m" by simp
    from Cons.IH [OF rest this _ Cons.prems(4)] False w show ?thesis by simp
  qed
qed

lemma getEncodingName_const: "getEncodingName model = ''cl100k_base''"
  by (simp add: getEncodingName_def)

lemma reverse_after_first_Cons: "reverse_after_first (x # xs) = x # rev xs"
  by (cases xs) (simp_all add: reverse_after_first_def)

lemma Build_eq:
  "\<exists>cb'. Build ge cb messages systemPrompt model =
     (if sub64 (sub64 (maxTokens cb) (reserveTokens cb))
           (add64 (content_cost ge (counter cb) systemPrompt model) 4) \<le> 0
      then (Inr ([system_message systemPrompt
                    (add64 (content_cost ge (counter cb) systemPrompt model) 4)],
                 add64 (content_cost ge (counter cb) systemPrompt model) 4), cb')
      else (Inr (system_message systemPrompt
                    (add64 (content_cost ge (counter cb) systemPrompt model) 4)
                   # rev (newest_that_fit64 (charged ge (counter cb) model)
                            (sub64 (maxTokens cb) (reserveTokens cb))
                            (add64 (content_cost ge (counter cb) systemPrompt model) 4)
                            (rev messages)),
                 wrap64 (add64 (content_cost ge (counter cb) systemPrompt model) 4
                   + sum_list (map (charged ge (counter cb) model)
                       (newest_that_fit64 (charged ge (counter cb) model)
                            (sub64 (maxTokens cb) (reserveTokens cb))
                            (add64 (content_cost ge (counter cb) systemPrompt model) 4)
                            (rev messages))))),
            cb'))"
proof -
  define sys where "sys = add64 (content_cost ge (counter cb) systemPrompt model) 4"
  define avail where "avail = sub64 (maxTokens cb) (reserveTokens cb)"
  obtain r tc where c: "Count ge (counter cb) systemPrompt model = (r, tc)"
    by (cases "Count ge (counter cb) systemPrompt model")
  from c Count_fst [of ge "counter cb" systemPrompt model]
  have r: "r = Inr (content_cost ge (counter cb) systemPrompt model)"
    by (simp add: content_cost_eq)
  from c Count_snd [of ge "counter cb" systemPrompt model]
  have e: "ge ++ encoders tc = ge ++ encoders (counter cb)" by simp
  have w: "wrap64 sys = sys" by (simp add: sys_def add64_def wrap64_idem)
  show ?thesis
  proof (cases "sub64 avail sys \<le> 0")
    case True
    with c r show ?thesis
      unfolding sys_def [symmetric] avail_def [symmetric]
      by (simp add: Build_def Let_def avail_def [symmetric] sys_def [symmetric])
  next
    case False
    from Build_loop_selects [OF e w, of model avail "rev messages"
        "[system_message systemPrompt sys]"]
    obtain tc' where l: "Build_loop ge model avail (rev messages) tc
         [system_message systemPrompt sys] sys =
       (Inr ([system_message systemPrompt sys] @
              newest_that_fit64 (charged ge (counter cb) model) avail sys (rev messages),
             wrap64 (sys + sum_list (map (charged ge (counter cb) model)
                   (newest_that_fit64 (charged ge (counter cb) model) avail sys (rev messages))))),
        tc')"
      by blast
    with c r False show ?thesis
      unfolding sys_def [symmetric] avail_def [symmetric]
      by (simp add: Build_def Let_def avail_def [symmetric] sys_def [symmetric]
            reverse_after_first_Cons)
  qed
qed

lemma in_range_facts:
  assumes "tokens_in_range ge cb messages systemPrompt model"
  shows "add64 (content_cost ge (counter cb) systemPrompt model) 4 =
           content_cost ge (counter cb) systemPrompt model + 4"
    and "sub64 (maxTokens cb) (reserveTokens cb) = maxTokens cb - reserveTokens cb"
    and "sub64 (maxTokens cb - reserveTokens cb)
           (content_cost ge (counter cb) systemPrompt model + 4) =
         maxTokens cb - reserveTokens cb - (content_cost ge (counter cb) systemPrompt model + 4)"
    and "maxTokens cb - reserveTokens cb \<le> 2 ^ 62"
    and "\<forall>m \<in> set messages.
           0 \<le> charged ge (counter cb) model m \<and> charged ge (counter cb) model m < 2 ^ 62"
    and "\<forall>m \<in> set messages.
           charged ge (counter cb) model m =
             (if Tokens m \<noteq> 0 then Tokens m
              else content_cost ge (counter cb) (Content m) model + 4)"
proof -
  from assms have mx: "\<bar>maxTokens cb\<bar> \<le> 2 ^ 61" and rs: "\<bar>reserveTokens cb\<bar> \<le> 2 ^ 61"
    and sp: "content_cost ge (counter cb) systemPrompt model < 2 ^ 61"
    and ms: "\<And>m. m \<in> set messages \<Longrightarrow> 0 \<le> Tokens m \<and> Tokens m < 2 ^ 61 \<and>
         content_cost ge (counter cb) (Content m) model < 2 ^ 61"
    by (simp_all add: tokens_in_range_def)
  have nn: "0 \<le> content_cost ge (counter cb) t model" for t
    by (rule content_cost_nonneg)
  have plus4: "add64 (content_cost ge (counter cb) t model) 4 =
      content_cost ge (counter cb) t model + 4"
    if "content_cost ge (counter cb) t model < 2 ^ 61" for t
    unfolding add64_def using that nn [of t] by (intro wrap64_id) simp_all
  from sp show "add64 (content_cost ge (counter cb) systemPrompt model) 4 =
           content_cost ge (counter cb) systemPrompt model + 4"
    by (rule plus4)
  from mx rs show "sub64 (maxTokens cb) (reserveTokens cb) = maxTokens cb - reserveTokens cb"
    unfolding sub64_def by (intro wrap64_id) simp_all
  from mx rs sp nn [of systemPrompt]
  show "sub64 (maxTokens cb - reserveTokens cb)
           (content_cost ge (counter cb) systemPrompt model + 4) =
         maxTokens cb - reserveTokens cb - (content_cost ge (counter cb) systemPrompt model + 4)"
    unfolding sub64_def by (intro wrap64_id) simp_all
  from mx rs show "maxTokens cb - reserveTokens cb \<le> 2 ^ 62" by simp
  show ex: "\<forall>m \<in> set messages.
           charged ge (counter cb) model m =
             (if Tokens m \<noteq> 0 then Tokens m
              else content_cost ge (counter cb) (Content m) model + 4)"
  proof
    fix m assume "m \<in> set messages"
    from ms [OF this] show "charged ge (counter cb) model m =
             (if Tokens m \<noteq> 0 then Tokens m
              else content_cost ge (counter cb) (Content m) model + 4)"
      by (simp add: charged_def plus4)
  qed
  show "\<forall>m \<in> set messages.
           0 \<le> charged ge (counter cb) model m \<and> charged ge (counter cb) model m < 2 ^ 62"
  proof
    fix m assume m: "m \<in> set messages"
    from ex m have "charged ge (counter cb) model m =
             (if Tokens m \<noteq> 0 then Tokens m
              else content_cost ge (counter cb) (Content m) model + 4)" by blast
    with ms [OF m] nn [of "Content m"]
    show "0 \<le> charged ge (counter cb) model m \<and> charged ge (counter cb) model m < 2 ^ 62"
      by (simp split: if_splits)
  qed
qed

lemma sum_list_map_rev: "sum_list (map f (rev xs)) = sum_list (map (f :: 'a \<Rightarrow> int) xs)"
  by (induction xs) simp_all

lemma rev_take_rev: "n \<le> length ms \<Longrightarrow> rev (take n (rev ms)) = drop (length ms - n) ms"
  by (simp add: rev_take)

lemma drop_as_rev_take:
  "j \<le> length ms \<Longrightarrow> drop j ms = rev (take (length ms - j) (rev ms))"
  by (simp add: rev_take)

lemma newest_that_fit64_length: "length (newest_that_fit64 cost a t ms) \<le> length ms"
  by (induction ms arbitrary: t) auto

text \<open>
  What \<open>Build\<close> returns, with \<open>n\<close> the number of history messages kept: in the code's
  arithmetic always, and in exact arithmetic within the range.
\<close>

lemma Build_summary:
  "\<exists>n totalTokens cb'.
     n \<le> length messages \<and>
     Build ge cb messages systemPrompt model =
       (Inr (system_message systemPrompt
               (add64 (content_cost ge (counter cb) systemPrompt model) 4)
             # drop (length messages - n) messages, totalTokens), cb') \<and>
     totalTokens =
       wrap64 (add64 (content_cost ge (counter cb) systemPrompt model) 4
               + sum_list (map (charged ge (counter cb) model)
                    (drop (length messages - n) messages))) \<and>
     (0 < sub64 (sub64 (maxTokens cb) (reserveTokens cb))
            (add64 (content_cost ge (counter cb) systemPrompt model) 4) \<longrightarrow>
        take n (rev messages) =
          newest_that_fit64 (charged ge (counter cb) model)
            (sub64 (maxTokens cb) (reserveTokens cb))
            (add64 (content_cost ge (counter cb) systemPrompt model) 4) (rev messages)) \<and>
     (sub64 (sub64 (maxTokens cb) (reserveTokens cb))
            (add64 (content_cost ge (counter cb) systemPrompt model) 4) \<le> 0 \<longrightarrow> n = 0) \<and>
     (tokens_in_range ge cb messages systemPrompt model \<longrightarrow>
        totalTokens =
          content_cost ge (counter cb) systemPrompt model + 4
          + sum_list (map (charged ge (counter cb) model) (drop (length messages - n) messages)) \<and>
        (maxTokens cb - reserveTokens cb
           - (content_cost ge (counter cb) systemPrompt model + 4) \<le> 0 \<longrightarrow> n = 0) \<and>
        (0 < maxTokens cb - reserveTokens cb
           - (content_cost ge (counter cb) systemPrompt model + 4) \<longrightarrow>
           take n (rev messages) =
             newest_that_fit (charged ge (counter cb) model)
               (maxTokens cb - reserveTokens cb)
               (content_cost ge (counter cb) systemPrompt model + 4) (rev messages)))"
proof -
  define sysT where "sysT = add64 (content_cost ge (counter cb) systemPrompt model) 4"
  define availW where "availW = sub64 (maxTokens cb) (reserveTokens cb)"
  define sys where "sys = content_cost ge (counter cb) systemPrompt model + 4"
  define avail where "avail = maxTokens cb - reserveTokens cb"
  define cost where "cost = charged ge (counter cb) model"
  define sel where "sel = newest_that_fit64 cost availW sysT (rev messages)"
  define n where "n = (if sub64 availW sysT \<le> 0 then 0 else length sel)"
  obtain cb' where b: "Build ge cb messages systemPrompt model =
     (if sub64 availW sysT \<le> 0 then (Inr ([system_message systemPrompt sysT], sysT), cb')
      else (Inr (system_message systemPrompt sysT # rev sel,
                 wrap64 (sysT + sum_list (map cost sel))), cb'))"
    using Build_eq [of ge cb messages systemPrompt model]
    unfolding sysT_def availW_def cost_def sel_def by blast
  define tot where "tot = wrap64 (sysT + sum_list (map cost (drop (length messages - n) messages)))"
  have wT: "wrap64 sysT = sysT" by (simp add: sysT_def add64_def wrap64_idem)
  have len: "length sel \<le> length messages"
    unfolding sel_def using newest_that_fit64_length [of cost availW sysT "rev messages"] by simp
  then have n_le: "n \<le> length messages" by (simp add: n_def)
  have sel_take: "take (length sel) (rev messages) = sel"
    unfolding sel_def by (rule newest_that_fit64_take)
  have kept: "rev sel = drop (length messages - length sel) messages"
    using rev_take_rev [OF len] sel_take by simp
  have build: "Build ge cb messages systemPrompt model =
       (Inr (system_message systemPrompt sysT # drop (length messages - n) messages, tot), cb')"
  proof (cases "sub64 availW sysT \<le> 0")
    case True
    with b wT show ?thesis by (simp add: n_def tot_def)
  next
    case False
    have "sum_list (map cost (rev sel)) = sum_list (map cost sel)" by (rule sum_list_map_rev)
    with b False kept show ?thesis by (simp add: n_def tot_def)
  qed
  have w2: "0 < sub64 availW sysT \<longrightarrow> take n (rev messages) = sel"
    using sel_take by (simp add: n_def)
  have w3: "sub64 availW sysT \<le> 0 \<longrightarrow> n = 0" by (simp add: n_def)
  have p: "tot = sys + sum_list (map cost (drop (length messages - n) messages)) \<and>
        (avail - sys \<le> 0 \<longrightarrow> n = 0) \<and>
        (0 < avail - sys \<longrightarrow> take n (rev messages) = newest_that_fit cost avail sys (rev messages))"
    if range: "tokens_in_range ge cb messages systemPrompt model"
  proof -
    note f = in_range_facts [OF range, folded sys_def avail_def cost_def]
    from f(1) have s: "sysT = sys" by (simp add: sysT_def sys_def)
    from f(2) have a: "availW = avail" by (simp add: availW_def avail_def)
    from f(3) s a have d: "sub64 availW sysT = avail - sys" by simp
    have sys0: "0 \<le> sys"
      unfolding sys_def using content_cost_nonneg [of ge "counter cb" systemPrompt model] by simp
    show ?thesis
    proof (cases "avail - sys \<le> 0")
      case True
      with d have "n = 0" by (simp add: n_def)
      moreover from wT s have "wrap64 sys = sys" by simp
      ultimately show ?thesis using True s by (simp add: tot_def)
    next
      case False
      then have le: "sys \<le> avail" by simp
      from f(5) have costs: "\<forall>m \<in> set (rev messages). 0 \<le> cost m \<and> cost m < 2 ^ 62" by simp
      have same: "sel = newest_that_fit cost avail sys (rev messages)"
        unfolding sel_def s a using costs sys0 le f(4) by (rule newest_that_fit64_exact)
      from False d have nl: "n = length sel" by (simp add: n_def)
      have "length sel \<le> length sel" by simp
      with le have "sys + sum_list (map cost (take (length sel) (rev messages))) \<le> avail"
        unfolding same by (rule newest_that_fit_partial)
      with sel_take have fit: "sys + sum_list (map cost sel) \<le> avail" by simp
      have "set sel \<subseteq> set (rev messages)"
        using sel_take by (metis set_take_subset)
      with costs have "\<forall>m \<in> set sel. 0 \<le> cost m" by blast
      then have "0 \<le> sum_list (map cost sel)" by (induction sel) simp_all
      with sys0 fit f(4) have "wrap64 (sys + sum_list (map cost sel)) = sys + sum_list (map cost sel)"
        by (intro wrap64_id) simp_all
      moreover have "sum_list (map cost (drop (length messages - n) messages)) =
          sum_list (map cost sel)"
        unfolding nl kept [symmetric] by (rule sum_list_map_rev)
      ultimately have "tot = sys + sum_list (map cost (drop (length messages - n) messages))"
        by (simp add: tot_def s)
      with False same sel_take nl show ?thesis by simp
    qed
  qed
  from n_le build w2 w3 p show ?thesis
    unfolding tot_def sysT_def [symmetric] availW_def [symmetric] sys_def [symmetric]
      avail_def [symmetric] cost_def [symmetric] sel_def [symmetric]
    by blast
qed

lemma charged_lambda:
  "charged ge tc model =
     (\<lambda>msg. if Tokens msg \<noteq> 0 then Tokens msg
            else add64 (content_cost ge tc (Content msg) model) 4)"
  by (rule ext) (simp add: charged_def)

lemma filter_drop_empty:
  "\<forall>x \<in> set xs. \<not> P x \<Longrightarrow> filter P (drop k xs) = []"
  by (metis filter_False in_set_dropD)

lemma counter_NewContextBuilder: "counter (NewContextBuilder a b) = NewTokenCounter"
  by (simp add: NewContextBuilder_def)

lemma content_cost_fallback:
  "content_cost (\<lambda>_. None) NewTokenCounter text model = estimateTokens text"
  by (simp add: content_cost_def Count_def getEncodingName_const NewTokenCounter_def)

lemma charged_fallback:
  "charged (\<lambda>_. None) (counter (NewContextBuilder a b)) model msg =
     (if Tokens msg \<noteq> 0 then Tokens msg else add64 (estimateTokens (Content msg)) 4)"
  by (simp add: charged_def content_cost_fallback counter_NewContextBuilder)

lemma Build_fallback_eval:
  "fst (Build (\<lambda>_. None) (NewContextBuilder a b) messages systemPrompt model) =
     (if sub64 (sub64 a b) (add64 (estimateTokens systemPrompt) 4) \<le> 0
      then Inr ([system_message systemPrompt (add64 (estimateTokens systemPrompt) 4)],
                add64 (estimateTokens systemPrompt) 4)
      else Inr (system_message systemPrompt (add64 (estimateTokens systemPrompt) 4)
                  # rev (newest_that_fit64
                           (\<lambda>msg. if Tokens msg \<noteq> 0 then Tokens msg
                                  else add64 (estimateTokens (Content msg)) 4)
                           (sub64 a b) (add64 (estimateTokens systemPrompt) 4) (rev messages)),
                wrap64 (add64 (estimateTokens systemPrompt) 4
                  + sum_list (map (\<lambda>msg. if Tokens msg \<noteq> 0 then Tokens msg
                                           else add64 (estimateTokens (Content msg)) 4)
                      (newest_that_fit64
                           (\<lambda>msg. if Tokens msg \<noteq> 0 then Tokens msg
                                  else add64 (estimateTokens (Content msg)) 4)
                           (sub64 a b) (add64 (estimateTokens systemPrompt) 4) (rev messages))))))"
proof -
  have c: "charged (\<lambda>_. None) (counter (NewContextBuilder a b)) model =
      (\<lambda>msg. if Tokens msg \<noteq> 0 then Tokens msg else add64 (estimateTokens (Content msg)) 4)"
    by (rule ext) (rule charged_fallback)
  from Build_eq [of "\<lambda>_. None" "NewContextBuilder a b" messages systemPrompt model]
  show ?thesis
    unfolding counter_NewContextBuilder content_cost_fallback
      c [unfolded counter_NewContextBuilder]
    by (auto simp: NewContextBuilder_def)
qed

text \<open>
  C6, as amended.  \<open>Build\<close> never fails, and its result begins with the system message
  built from the system prompt, followed by a suffix of the history whose messages keep
  their roles: the result holds exactly one system-role message when no message of the
  history has the role \<open>system\<close>.  When the budgets and the token counts are within the
  range \<open>tokens_in_range\<close>, where no sum of the code wraps around, the returned total is
  at most \<open>maxTokens - reserveTokens\<close> unless the cost of the system prompt alone
  exceeds that budget, and in that case the result is the system message alone with its
  cost as total.
\<close>

theorem Build_system_first_within_budget:
  "\<exists>selected totalTokens cb'.
     Build ge cb messages systemPrompt model =
       (Inr (system_message systemPrompt
               (add64 (content_cost ge (counter cb) systemPrompt model) 4)
             # selected, totalTokens), cb') \<and>
     Role (system_message systemPrompt
             (add64 (content_cost ge (counter cb) systemPrompt model) 4)) = ''system'' \<and>
     (\<exists>k. selected = drop k messages) \<and>
     ((\<forall>msg \<in> set messages. Role msg \<noteq> ''system'') \<longrightarrow>
        length (filter (\<lambda>msg. Role msg = ''system'')
                  (system_message systemPrompt
                     (add64 (content_cost ge (counter cb) systemPrompt model) 4)
                   # selected)) = 1) \<and>
     (tokens_in_range ge cb messages systemPrompt model \<longrightarrow>
        (content_cost ge (counter cb) systemPrompt model + 4 \<le> maxTokens cb - reserveTokens cb
           \<longrightarrow> totalTokens \<le> maxTokens cb - reserveTokens cb) \<and>
        (maxTokens cb - reserveTokens cb < content_cost ge (counter cb) systemPrompt model + 4
           \<longrightarrow> selected = [] \<and>
               totalTokens = content_cost ge (counter cb) systemPrompt model + 4))"
proof -
  define sysT where "sysT = add64 (content_cost ge (counter cb) systemPrompt model) 4"
  define sys where "sys = content_cost ge (counter cb) systemPrompt model + 4"
  define avail where "avail = maxTokens cb - reserveTokens cb"
  define cost where "cost = charged ge (counter cb) model"
  from Build_summary [of messages ge cb systemPrompt model]
  obtain n totalTokens cb' where n: "n \<le> length messages"
    and b: "Build ge cb messages systemPrompt model =
       (Inr (system_message systemPrompt sysT # drop (length messages - n) messages,
             totalTokens), cb')"
    and p: "tokens_in_range ge cb messages systemPrompt model \<longrightarrow>
        totalTokens = sys + sum_list (map cost (drop (length messages - n) messages)) \<and>
        (avail - sys \<le> 0 \<longrightarrow> n = 0) \<and>
        (0 < avail - sys \<longrightarrow>
           take n (rev messages) = newest_that_fit cost avail sys (rev messages))"
    unfolding sysT_def sys_def avail_def cost_def by blast
  define selected where "selected = drop (length messages - n) messages"
  have role: "Role (system_message systemPrompt sysT) = ''system''"
    by (simp add: system_message_def)
  have suffix: "\<exists>k. selected = drop k messages"
    unfolding selected_def by blast
  have one: "length (filter (\<lambda>msg. Role msg = ''system'')
                  (system_message systemPrompt sysT # selected)) = 1"
    if "\<forall>msg \<in> set messages. Role msg \<noteq> ''system''"
  proof -
    from that have "filter (\<lambda>msg. Role msg = ''system'') selected = []"
      unfolding selected_def by (intro filter_drop_empty) simp
    with role show ?thesis by simp
  qed
  have budget: "(sys \<le> avail \<longrightarrow> totalTokens \<le> avail) \<and>
        (avail < sys \<longrightarrow> selected = [] \<and> totalTokens = sys)"
    if range: "tokens_in_range ge cb messages systemPrompt model"
  proof (cases "avail - sys \<le> 0")
    case True
    with p range have "n = 0" and "totalTokens = sys + sum_list (map cost selected)"
      unfolding selected_def by blast+
    then show ?thesis unfolding selected_def by auto
  next
    case False
    with p range have t: "totalTokens = sys + sum_list (map cost selected)"
      and s: "take n (rev messages) = newest_that_fit cost avail sys (rev messages)"
      unfolding selected_def by simp_all
    from False have le: "sys \<le> avail" by simp
    from s n have "n \<le> length (newest_that_fit cost avail sys (rev messages))"
      by (metis length_rev length_take min.absorb2 order_refl)
    with le have "sys + sum_list (map cost (take n (rev messages))) \<le> avail"
      by (rule newest_that_fit_partial)
    moreover from n have "selected = rev (take n (rev messages))"
      unfolding selected_def by (simp add: rev_take_rev)
    ultimately have "sys + sum_list (map cost selected) \<le> avail"
      by (simp add: sum_list_map_rev)
    with t False show ?thesis by simp
  qed
  from b role suffix one budget show ?thesis
    unfolding sysT_def sys_def avail_def selected_def [symmetric]
    by (intro exI [of _ selected] exI [of _ totalTokens] exI [of _ cb']) simp
qed

theorem Build_system_first_within_budget_witness:
  "tokens_in_range (\<lambda>_. None) (NewContextBuilder 50 10)
        [\<lparr>Role = ''user'', Content = ''Old message'', Tokens = 15, MessageID = []\<rparr>,
         \<lparr>Role = ''assistant'', Content = ''Old response'', Tokens = 15, MessageID = []\<rparr>,
         \<lparr>Role = ''user'', Content = ''New message'', Tokens = 15, MessageID = []\<rparr>]
        ''System.'' ''gpt-4'' \<and>
   (6::int) \<le> 50 - 10 \<and>
   (\<exists>selected totalTokens cb'.
      Build (\<lambda>_. None) (NewContextBuilder 50 10)
        [\<lparr>Role = ''user'', Content = ''Old message'', Tokens = 15, MessageID = []\<rparr>,
         \<lparr>Role = ''assistant'', Content = ''Old response'', Tokens = 15, MessageID = []\<rparr>,
         \<lparr>Role = ''user'', Content = ''New message'', Tokens = 15, MessageID = []\<rparr>]
        ''System.'' ''gpt-4'' =
        (Inr (system_message ''System.'' 6 # selected, totalTokens), cb') \<and>
      length (filter (\<lambda>msg. Role msg = ''system'') (system_message ''System.'' 6 # selected)) = 1 \<and>
      totalTokens \<le> 40)"
proof -
  have r: "tokens_in_range (\<lambda>_. None) (NewContextBuilder 50 10)
        [\<lparr>Role = ''user'', Content = ''Old message'', Tokens = 15, MessageID = []\<rparr>,
         \<lparr>Role = ''assistant'', Content = ''Old response'', Tokens = 15, MessageID = []\<rparr>,
         \<lparr>Role = ''user'', Content = ''New message'', Tokens = 15, MessageID = []\<rparr>]
        ''System.'' ''gpt-4''"
    by (simp add: tokens_in_range_def counter_NewContextBuilder content_cost_fallback
          estimateTokens_def)
       (simp add: NewContextBuilder_def)
  from Build_system_first_within_budget [of "\<lambda>_. None" "NewContextBuilder 50 10"
     "[\<lparr>Role = ''user'', Content = ''Old message'', Tokens = 15, MessageID = []\<rparr>,
         \<lparr>Role = ''assistant'', Content = ''Old response'', Tokens = 15, MessageID = []\<rparr>,
         \<lparr>Role = ''user'', Content = ''New message'', Tokens = 15, MessageID = []\<rparr>]"
     "''System.''" "''gpt-4''"] r
  show ?thesis
    unfolding counter_NewContextBuilder content_cost_fallback
    by (simp add: estimateTokens_def NewContextBuilder_def add64_def wrap64_def
          del: filter.simps) blast
qed

text \<open>
  The claim C6 as stated fails in two ways.  A history that begins with a stored system
  message, as \<open>handleAsk\<close> stores one for every thread, gives a result with two
  system-role messages.  And outside the range the sums wrap around: with a budget of
  -9223372036854775806 tokens, below the cost 6 of the system prompt, the difference
  \<open>availableTokens - systemTokens\<close> wraps to a positive number, the walk is entered and
  a history message is kept after the system message.
\<close>

theorem Build_budget_counterexample:
  "fst (Build (\<lambda>_. None) (NewContextBuilder 4096 1000)
          [\<lparr>Role = ''system'', Content = ''You are helpful.'', Tokens = 8, MessageID = []\<rparr>,
           \<lparr>Role = ''user'', Content = ''Hi'', Tokens = 5, MessageID = []\<rparr>]
          ''You are helpful.'' ''gpt-4'') =
     Inr ([system_message ''You are helpful.'' 8,
           \<lparr>Role = ''system'', Content = ''You are helpful.'', Tokens = 8, MessageID = []\<rparr>,
           \<lparr>Role = ''user'', Content = ''Hi'', Tokens = 5, MessageID = []\<rparr>],
          21) \<and>
   length (filter (\<lambda>msg. Role msg = ''system'')
      [system_message ''You are helpful.'' 8,
       \<lparr>Role = ''system'', Content = ''You are helpful.'', Tokens = 8, MessageID = []\<rparr>,
       \<lparr>Role = ''user'', Content = ''Hi'', Tokens = 5, MessageID = []\<rparr>]) = 2 \<and>
   fst (Build (\<lambda>_. None) (NewContextBuilder (- 9223372036854775806) 0)
          [\<lparr>Role = ''user'', Content = ''Hi'', Tokens = 9223372036854775804, MessageID = []\<rparr>]
          ''System.'' ''gpt-4'') =
     Inr ([system_message ''System.'' 6,
           \<lparr>Role = ''user'', Content = ''Hi'', Tokens = 9223372036854775804, MessageID = []\<rparr>],
          - 9223372036854775806) \<and>
   maxTokens (NewContextBuilder (- 9223372036854775806) 0)
     - reserveTokens (NewContextBuilder (- 9223372036854775806) 0) < (6::int)"
proof -
  have a: "fst (Build (\<lambda>_. None) (NewContextBuilder 4096 1000)
          [\<lparr>Role = ''system'', Content = ''You are helpful.'', Tokens = 8, MessageID = []\<rparr>,
           \<lparr>Role = ''user'', Content = ''Hi'', Tokens = 5, MessageID = []\<rparr>]
          ''You are helpful.'' ''gpt-4'') =
     Inr ([system_message ''You are helpful.'' 8,
           \<lparr>Role = ''system'', Content = ''You are helpful.'', Tokens = 8, MessageID = []\<rparr>,
           \<lparr>Role = ''user'', Content = ''Hi'', Tokens = 5, MessageID = []\<rparr>],
          21)"
    by (simp add: Build_fallback_eval estimateTokens_def add64_def sub64_def wrap64_def)
  have b: "fst (Build (\<lambda>_. None) (NewContextBuilder (- 9223372036854775806) 0)
          [\<lparr>Role = ''user'', Content = ''Hi'', Tokens = 9223372036854775804, MessageID = []\<rparr>]
          ''System.'' ''gpt-4'') =
     Inr ([system_message ''System.'' 6,
           \<lparr>Role = ''user'', Content = ''Hi'', Tokens = 9223372036854775804, MessageID = []\<rparr>],
          - 9223372036854775806)"
    by (simp add: Build_fallback_eval estimateTokens_def add64_def sub64_def wrap64_def)
  from a b show ?thesis
    by (simp add: NewContextBuilder_def system_message_def)
qed

text \<open>
  C7, as amended.  The history messages that \<open>Build\<close> returns form a contiguous suffix
  of the input, in the original chronological order, after the system message.  When
  the budgets and the token counts are within the range \<open>tokens_in_range\<close>, the suffix
  is the one selected by the walk from the newest message: every kept suffix fits the
  available budget together with the system message, and when the system cost is below
  the budget and a message was dropped, the newest dropped message is the one that
  would have overflowed, whether or not an older message would have fit.
\<close>

theorem Build_keeps_newest_suffix:
  "\<exists>k totalTokens cb'.
     k \<le> length messages \<and>
     Build ge cb messages systemPrompt model =
       (Inr (system_message systemPrompt
               (add64 (content_cost ge (counter cb) systemPrompt model) 4)
             # drop k messages, totalTokens), cb') \<and>
     (tokens_in_range ge cb messages systemPrompt model \<longrightarrow>
        (\<forall>j. k \<le> j \<and> j < length messages \<longrightarrow>
             content_cost ge (counter cb) systemPrompt model + 4
               + sum_list (map (charged ge (counter cb) model) (drop j messages))
             \<le> maxTokens cb - reserveTokens cb) \<and>
        (content_cost ge (counter cb) systemPrompt model + 4 < maxTokens cb - reserveTokens cb
           \<and> 0 < k \<longrightarrow>
             maxTokens cb - reserveTokens cb
             < content_cost ge (counter cb) systemPrompt model + 4
               + sum_list (map (charged ge (counter cb) model) (drop k messages))
               + charged ge (counter cb) model (messages ! (k - 1))))"
proof -
  define sysT where "sysT = add64 (content_cost ge (counter cb) systemPrompt model) 4"
  define sys where "sys = content_cost ge (counter cb) systemPrompt model + 4"
  define avail where "avail = maxTokens cb - reserveTokens cb"
  define cost where "cost = charged ge (counter cb) model"
  from Build_summary [of messages ge cb systemPrompt model]
  obtain n totalTokens cb' where n: "n \<le> length messages"
    and b: "Build ge cb messages systemPrompt model =
       (Inr (system_message systemPrompt sysT # drop (length messages - n) messages,
             totalTokens), cb')"
    and p: "tokens_in_range ge cb messages systemPrompt model \<longrightarrow>
        totalTokens = sys + sum_list (map cost (drop (length messages - n) messages)) \<and>
        (avail - sys \<le> 0 \<longrightarrow> n = 0) \<and>
        (0 < avail - sys \<longrightarrow>
           take n (rev messages) = newest_that_fit cost avail sys (rev messages))"
    unfolding sysT_def sys_def avail_def cost_def by blast
  define k where "k = length messages - n"
  have k_le: "k \<le> length messages" by (simp add: k_def)
  have walk: "(\<forall>j. k \<le> j \<and> j < length messages \<longrightarrow>
             sys + sum_list (map cost (drop j messages)) \<le> avail) \<and>
        (sys < avail \<and> 0 < k \<longrightarrow>
             avail < sys + sum_list (map cost (drop k messages)) + cost (messages ! (k - 1)))"
    if range: "tokens_in_range ge cb messages systemPrompt model"
  proof (cases "avail - sys \<le> 0")
    case True
    with p range have "n = 0" by blast
    with True show ?thesis by (simp add: k_def)
  next
    case False
    with p range have s: "take n (rev messages) = newest_that_fit cost avail sys (rev messages)"
      by simp
    define sel where "sel = newest_that_fit cost avail sys (rev messages)"
    from s n have nl: "n = length sel"
      unfolding sel_def by (metis length_rev length_take min.absorb2)
    from False have le: "sys \<le> avail" by simp
    have kept: "drop k messages = rev sel"
      unfolding k_def sel_def s [symmetric] using n by (simp add: rev_take_rev)
    have fits: "sys + sum_list (map cost (drop j messages)) \<le> avail"
      if j: "k \<le> j" "j < length messages" for j
    proof -
      from j n have "length messages - j \<le> length sel" unfolding k_def nl by arith
      with le have "sys + sum_list (map cost (take (length messages - j) (rev messages))) \<le> avail"
        unfolding sel_def by (rule newest_that_fit_partial)
      moreover from j have "drop j messages = rev (take (length messages - j) (rev messages))"
        by (simp add: drop_as_rev_take)
      ultimately show ?thesis by (simp add: sum_list_map_rev)
    qed
    have stops: "avail < sys + sum_list (map cost (drop k messages)) + cost (messages ! (k - 1))"
      if "0 < k"
    proof -
      from that have lt: "length sel < length (rev messages)" unfolding k_def nl by simp
      then have "avail < sys + sum_list (map cost sel) + cost (rev messages ! length sel)"
        unfolding sel_def by (rule newest_that_fit_stop)
      moreover from lt have "rev messages ! length sel = messages ! (k - 1)"
        unfolding k_def nl by (simp add: rev_nth)
      ultimately show ?thesis by (simp add: kept sum_list_map_rev)
    qed
    from fits stops show ?thesis by blast
  qed
  from k_le b walk show ?thesis
    unfolding sysT_def sys_def avail_def cost_def k_def [symmetric]
    by (intro exI [of _ k] exI [of _ totalTokens] exI [of _ cb']) simp
qed

theorem Build_keeps_newest_suffix_witness:
  "tokens_in_range (\<lambda>_. None) (NewContextBuilder 50 10)
        [\<lparr>Role = ''user'', Content = ''Old message'', Tokens = 15, MessageID = []\<rparr>,
         \<lparr>Role = ''assistant'', Content = ''Old response'', Tokens = 15, MessageID = []\<rparr>,
         \<lparr>Role = ''user'', Content = ''New message'', Tokens = 15, MessageID = []\<rparr>]
        ''System.'' ''gpt-4'' \<and>
   (\<exists>k totalTokens cb'.
     0 < k \<and> k < 3 \<and> (6::int) < 50 - 10 \<and>
     Build (\<lambda>_. None) (NewContextBuilder 50 10)
        [\<lparr>Role = ''user'', Content = ''Old message'', Tokens = 15, MessageID = []\<rparr>,
         \<lparr>Role = ''assistant'', Content = ''Old response'', Tokens = 15, MessageID = []\<rparr>,
         \<lparr>Role = ''user'', Content = ''New message'', Tokens = 15, MessageID = []\<rparr>]
        ''System.'' ''gpt-4'' =
       (Inr (system_message ''System.'' 6 #
             drop k [\<lparr>Role = ''user'', Content = ''Old message'', Tokens = 15, MessageID = []\<rparr>,
                     \<lparr>Role = ''assistant'', Content = ''Old response'', Tokens = 15, MessageID = []\<rparr>,
                     \<lparr>Role = ''user'', Content = ''New message'', Tokens = 15, MessageID = []\<rparr>],
             totalTokens), cb'))"
proof -
  define h where "h = [\<lparr>Role = ''user'', Content = ''Old message'', Tokens = 15, MessageID = []\<rparr>,
         \<lparr>Role = ''assistant'', Content = ''Old response'', Tokens = 15, MessageID = []\<rparr>,
         \<lparr>Role = ''user'', Content = ''New message'', Tokens = 15, MessageID = []\<rparr>]"
  define cost where "cost = charged (\<lambda>_. None) (counter (NewContextBuilder 50 10)) ''gpt-4''"
  have len: "length h = 3" by (simp add: h_def)
  have c: "map cost h = [15, 15, 15]"
    by (simp add: h_def cost_def charged_fallback)
  have r: "tokens_in_range (\<lambda>_. None) (NewContextBuilder 50 10) h ''System.'' ''gpt-4''"
    by (simp add: h_def tokens_in_range_def counter_NewContextBuilder content_cost_fallback
          estimateTokens_def)
       (simp add: NewContextBuilder_def)
  from Build_keeps_newest_suffix [where ge = "\<lambda>_. None" and cb = "NewContextBuilder 50 10"
       and messages = h and systemPrompt = "''System.''" and model = "''gpt-4''"] r
  obtain k totalTokens cb' where k: "k \<le> 3"
    and b: "Build (\<lambda>_. None) (NewContextBuilder 50 10) h ''System.'' ''gpt-4'' =
       (Inr (system_message ''System.'' 6 # drop k h, totalTokens), cb')"
    and fits: "\<forall>j. k \<le> j \<and> j < 3 \<longrightarrow> 6 + sum_list (map cost (drop j h)) \<le> 40"
    and stops: "0 < k \<longrightarrow> 40 < 6 + sum_list (map cost (drop k h)) + cost (h ! (k - 1))"
    unfolding counter_NewContextBuilder content_cost_fallback
      cost_def [unfolded counter_NewContextBuilder, symmetric] len
    by (auto simp: estimateTokens_def NewContextBuilder_def add64_def wrap64_def)
  have "0 < k"
  proof (rule ccontr)
    assume "\<not> 0 < k"
    then have "k = 0" by simp
    with fits have "0 < (3::nat) \<longrightarrow> 6 + sum_list (map cost (drop 0 h)) \<le> 40" by blast
    with c show False by simp
  qed
  moreover have "k < 3"
  proof (rule ccontr)
    assume "\<not> k < 3"
    with k have k3: "k = 3" by simp
    have "cost (h ! 2) = (map cost h) ! 2" by (simp add: len)
    with c have "cost (h ! 2) = 15" by simp
    with stops k3 len show False by simp
  qed
  ultimately show ?thesis
    using b r unfolding h_def by auto
qed

text \<open>
  The claim C7 as stated fails outside the range: a message with a stored count of
  9223372036854775807 tokens overflows the budget of 40, but the running sum of the code
  wraps around to a negative number and the message is kept.
\<close>

theorem Build_keeps_overflowing_message_counterexample:
  "fst (Build (\<lambda>_. None) (NewContextBuilder 50 10)
          [\<lparr>Role = ''user'', Content = ''Huge'', Tokens = 9223372036854775807, MessageID = []\<rparr>,
           \<lparr>Role = ''user'', Content = ''Hi'', Tokens = 5, MessageID = []\<rparr>]
          ''System.'' ''gpt-4'') =
     Inr ([system_message ''System.'' 6,
           \<lparr>Role = ''user'', Content = ''Huge'', Tokens = 9223372036854775807, MessageID = []\<rparr>,
           \<lparr>Role = ''user'', Content = ''Hi'', Tokens = 5, MessageID = []\<rparr>],
          - 9223372036854775798) \<and>
   (50::int) - 10 < 9223372036854775807"
  by (simp add: Build_fallback_eval estimateTokens_def add64_def sub64_def wrap64_def)

text \<open>
  C10.  In \<open>Build\<close> a history message whose stored token count is not zero is charged
  that count, with no overhead and without counting its content, and a message whose
  stored count is zero is charged the count of its content plus 4, both in the walk
  that selects the messages and in the returned total.  The sums are those of the code,
  64-bit with wrap-around: the total is the wrapped sum of the system cost and the
  charges of the selected messages, and the selection is the walk from the newest
  message under these charges.  Within the range \<open>tokens_in_range\<close> the total is the
  exact sum.
\<close>

theorem Build_charges_stored_count:
  "\<exists>selected totalTokens cb'.
     Build ge cb messages systemPrompt model =
       (Inr (system_message systemPrompt
               (add64 (content_cost ge (counter cb) systemPrompt model) 4)
             # selected, totalTokens), cb') \<and>
     totalTokens =
       wrap64 (add64 (content_cost ge (counter cb) systemPrompt model) 4
         + (\<Sum>msg\<leftarrow>selected. if Tokens msg \<noteq> 0 then Tokens msg
                             else add64 (content_cost ge (counter cb) (Content msg) model) 4)) \<and>
     (0 < sub64 (sub64 (maxTokens cb) (reserveTokens cb))
            (add64 (content_cost ge (counter cb) systemPrompt model) 4) \<longrightarrow>
        selected =
          rev (newest_that_fit64
                 (\<lambda>msg. if Tokens msg \<noteq> 0 then Tokens msg
                        else add64 (content_cost ge (counter cb) (Content msg) model) 4)
                 (sub64 (maxTokens cb) (reserveTokens cb))
                 (add64 (content_cost ge (counter cb) systemPrompt model) 4)
                 (rev messages))) \<and>
     (sub64 (sub64 (maxTokens cb) (reserveTokens cb))
            (add64 (content_cost ge (counter cb) systemPrompt model) 4) \<le> 0 \<longrightarrow>
        selected = []) \<and>
     (tokens_in_range ge cb messages systemPrompt model \<longrightarrow>
        totalTokens =
          content_cost ge (counter cb) systemPrompt model + 4
          + (\<Sum>msg\<leftarrow>selected. if Tokens msg \<noteq> 0 then Tokens msg
                              else content_cost ge (counter cb) (Content msg) model + 4))"
proof -
  define sysT where "sysT = add64 (content_cost ge (counter cb) systemPrompt model) 4"
  define availW where "availW = sub64 (maxTokens cb) (reserveTokens cb)"
  define sys where "sys = content_cost ge (counter cb) systemPrompt model + 4"
  define cost where "cost = charged ge (counter cb) model"
  from Build_summary [of messages ge cb systemPrompt model]
  obtain n totalTokens cb' where n: "n \<le> length messages"
    and b: "Build ge cb messages systemPrompt model =
       (Inr (system_message systemPrompt sysT # drop (length messages - n) messages,
             totalTokens), cb')"
    and w1: "totalTokens = wrap64 (sysT + sum_list (map cost (drop (length messages - n) messages)))"
    and w2: "0 < sub64 availW sysT \<longrightarrow>
        take n (rev messages) = newest_that_fit64 cost availW sysT (rev messages)"
    and w3: "sub64 availW sysT \<le> 0 \<longrightarrow> n = 0"
    and p: "tokens_in_range ge cb messages systemPrompt model \<longrightarrow>
        totalTokens = sys + sum_list (map cost (drop (length messages - n) messages))"
    unfolding sysT_def sys_def availW_def cost_def by blast
  define selected where "selected = drop (length messages - n) messages"
  from n have sel_rev: "selected = rev (take n (rev messages))"
    unfolding selected_def by (simp add: rev_take_rev)
  have g2: "0 < sub64 availW sysT \<longrightarrow>
      selected = rev (newest_that_fit64 cost availW sysT (rev messages))"
    using w2 sel_rev by simp
  have g3: "sub64 availW sysT \<le> 0 \<longrightarrow> selected = []"
    using w3 by (simp add: selected_def)
  have g4: "totalTokens = sys + (\<Sum>msg\<leftarrow>selected. if Tokens msg \<noteq> 0 then Tokens msg
                              else content_cost ge (counter cb) (Content msg) model + 4)"
    if range: "tokens_in_range ge cb messages systemPrompt model"
  proof -
    have "set selected \<subseteq> set messages"
      unfolding selected_def by (rule set_drop_subset)
    with in_range_facts(6) [OF range]
    have "\<forall>m \<in> set selected. cost m =
             (if Tokens m \<noteq> 0 then Tokens m
              else content_cost ge (counter cb) (Content m) model + 4)"
      unfolding cost_def by blast
    then have "map cost selected =
        map (\<lambda>msg. if Tokens msg \<noteq> 0 then Tokens msg
                   else content_cost ge (counter cb) (Content msg) model + 4) selected"
      by simp
    with p range show ?thesis unfolding selected_def by simp
  qed
  from b w1 g2 g3 g4 show ?thesis
    unfolding selected_def [symmetric] sysT_def availW_def sys_def cost_def charged_lambda
    by (intro exI [of _ selected] exI [of _ totalTokens] exI [of _ cb']) simp
qed

theorem Build_charges_stored_count_witness:
  "tokens_in_range (\<lambda>_. None) (NewContextBuilder 50 10)
        [\<lparr>Role = ''user'', Content = ''Old message'', Tokens = 15, MessageID = []\<rparr>,
         \<lparr>Role = ''assistant'', Content = ''Old response'', Tokens = 15, MessageID = []\<rparr>,
         \<lparr>Role = ''user'', Content = ''Hello!'', Tokens = 0, MessageID = []\<rparr>]
        ''System.'' ''gpt-4'' \<and>
   0 < sub64 (sub64 50 10) (add64 2 4) \<and>
   (\<exists>cb'.
     Build (\<lambda>_. None) (NewContextBuilder 50 10)
        [\<lparr>Role = ''user'', Content = ''Old message'', Tokens = 15, MessageID = []\<rparr>,
         \<lparr>Role = ''assistant'', Content = ''Old response'', Tokens = 15, MessageID = []\<rparr>,
         \<lparr>Role = ''user'', Content = ''Hello!'', Tokens = 0, MessageID = []\<rparr>]
        ''System.'' ''gpt-4'' =
       (Inr ([system_message ''System.'' 6,
              \<lparr>Role = ''assistant'', Content = ''Old response'', Tokens = 15, MessageID = []\<rparr>,
              \<lparr>Role = ''user'', Content = ''Hello!'', Tokens = 0, MessageID = []\<rparr>],
             6 + (15 + (2 + 4))), cb'))"
proof -
  have r: "tokens_in_range (\<lambda>_. None) (NewContextBuilder 50 10)
        [\<lparr>Role = ''user'', Content = ''Old message'', Tokens = 15, MessageID = []\<rparr>,
         \<lparr>Role = ''assistant'', Content = ''Old response'', Tokens = 15, MessageID = []\<rparr>,
         \<lparr>Role = ''user'', Content = ''Hello!'', Tokens = 0, MessageID = []\<rparr>]
        ''System.'' ''gpt-4''"
    by (simp add: tokens_in_range_def counter_NewContextBuilder content_cost_fallback
          estimateTokens_def)
       (simp add: NewContextBuilder_def)
  from Build_charges_stored_count [of "\<lambda>_. None" "NewContextBuilder 50 10"
        "[\<lparr>Role = ''user'', Content = ''Old message'', Tokens = 15, MessageID = []\<rparr>,
         \<lparr>Role = ''assistant'', Content = ''Old response'', Tokens = 15, MessageID = []\<rparr>,
         \<lparr>Role = ''user'', Content = ''Hello!'', Tokens = 0, MessageID = []\<rparr>]"
        "''System.''" "''gpt-4''"] r
  show ?thesis
    unfolding counter_NewContextBuilder content_cost_fallback
    by (auto simp: estimateTokens_def NewContextBuilder_def add64_def sub64_def wrap64_def)
qed

section \<open>Properties of the access-control manager\<close>

lemma contains_iff: "contains slice item = (item \<in> set slice)"
  by (induction slice) auto

lemma roleSkipped_iff:
  "roleSkipped roleNames rc =
     (DiscordRole rc \<notin> set roleNames \<and> DiscordRole rc \<noteq> ''@everyone'')"
  by (simp add: roleSkipped_def contains_iff)

lemma roleSkipped_union:
  "set rAB = set rA \<union> set rB \<Longrightarrow>
   (\<not> roleSkipped rAB rc) = (\<not> roleSkipped rA rc \<or> \<not> roleSkipped rB rc)"
  by (auto simp: roleSkipped_iff)

lemma HasPermission_perms_iff: "HasPermission_perms ps perm = (perm \<in> set ps)"
  by (induction ps) auto

lemma HasPermission_roles_iff:
  "HasPermission_roles rcs roleNames perm =
     (\<exists>rc \<in> set rcs. \<not> roleSkipped roleNames rc \<and> perm \<in> set (Permissions rc))"
  by (induction rcs) (auto simp: HasPermission_perms_iff)

lemma CanUseModel_patterns_iff:
  "CanUseModel_patterns pats modelRef = (\<exists>p \<in> set pats. matchesModelPattern modelRef p)"
  by (induction pats) auto

lemma CanUseModel_roles_iff:
  "CanUseModel_roles rcs roleNames modelRef =
     (\<exists>rc \<in> set rcs. \<not> roleSkipped roleNames rc \<and>
        (\<exists>p \<in> set (AllowedModels rc). matchesModelPattern modelRef p))"
  by (induction rcs) (auto simp: CanUseModel_patterns_iff)

lemma matches_wildcard: "matchesModelPattern modelRef ''*''"
  by (simp add: matchesModelPattern_def)

lemma set_set_true: "set (set_true allowed key) = insert key (set allowed)"
  by (auto simp: set_true_def)

lemma set_GetAllowedModels_enabled:
  "set (GetAllowedModels_enabled enabled pattern allowed) =
     set allowed \<union> {x \<in> set enabled. matchesModelPattern x pattern}"
  by (induction enabled arbitrary: allowed) (auto simp: set_set_true)

lemma GetAllowedModels_patterns_None:
  "(GetAllowedModels_patterns enabled pats allowed = None) = (''*'' \<in> set pats)"
  by (induction pats arbitrary: allowed) auto

lemma GetAllowedModels_patterns_Some:
  "GetAllowedModels_patterns enabled pats allowed = Some allowed' \<Longrightarrow>
   set allowed' = set allowed \<union> {x \<in> set enabled. \<exists>p \<in> set pats. matchesModelPattern x p}"
proof (induction pats arbitrary: allowed)
  case Nil
  then show ?case by simp
next
  case (Cons p pats)
  from Cons.prems have np: "p \<noteq> ''*''" by (auto split: if_splits)
  with Cons.prems have "GetAllowedModels_patterns enabled pats
      (GetAllowedModels_enabled enabled p allowed) = Some allowed'" by simp
  from Cons.IH [OF this] show ?case
    by (auto simp: set_GetAllowedModels_enabled)
qed

lemma GetAllowedModels_roles_None:
  "(GetAllowedModels_roles enabled rcs roleNames allowed = None) =
     (\<exists>rc \<in> set rcs. \<not> roleSkipped roleNames rc \<and> ''*'' \<in> set (AllowedModels rc))"
proof (induction rcs arbitrary: allowed)
  case Nil
  then show ?case by simp
next
  case (Cons rc rcs)
  show ?case
  proof (cases "roleSkipped roleNames rc")
    case True
    with Cons.IH show ?thesis by simp
  next
    case False
    show ?thesis
    proof (cases "GetAllowedModels_patterns enabled (AllowedModels rc) allowed")
      case None
      with False GetAllowedModels_patterns_None [of enabled "AllowedModels rc" allowed]
      show ?thesis by simp
    next
      case (Some a)
      with GetAllowedModels_patterns_None [of enabled "AllowedModels rc" allowed]
      have "''*'' \<notin> set (AllowedModels rc)" by simp
      with False Some Cons.IH [of a] show ?thesis by simp
    qed
  qed
qed

lemma GetAllowedModels_roles_Some:
  "GetAllowedModels_roles enabled rcs roleNames allowed = Some allowed' \<Longrightarrow>
   set allowed' = set allowed \<union> {x \<in> set enabled. CanUseModel_roles rcs roleNames x}"
proof (induction rcs arbitrary: allowed)
  case Nil
  then show ?case by simp
next
  case (Cons rc rcs)
  show ?case
  proof (cases "roleSkipped roleNames rc")
    case True
    with Cons.prems have "GetAllowedModels_roles enabled rcs roleNames allowed = Some allowed'"
      by simp
    from Cons.IH [OF this] True show ?thesis by simp
  next
    case False
    with Cons.prems obtain a where
      a: "GetAllowedModels_patterns enabled (AllowedModels rc) allowed = Some a"
      and r: "GetAllowedModels_roles enabled rcs roleNames a = Some allowed'"
      by (auto split: option.splits)
    from GetAllowedModels_patterns_Some [OF a] Cons.IH [OF r] False
    show ?thesis by (auto simp: CanUseModel_patterns_iff)
  qed
qed

lemma GetAllowedModels_set:
  "GetGuild (config m) guildID = Inr guildCfg \<Longrightarrow>
   set (GetAllowedModels m guildID member) =
     {x \<in> set (EnabledModels guildCfg). CanUseModel m guildID member x}"
proof -
  assume g: "GetGuild (config m) guildID = Inr guildCfg"
  show ?thesis
  proof (cases "GetAllowedModels_roles (EnabledModels guildCfg) (Roles (RBAC guildCfg))
                  (getRoleNames m guildID member) []")
    case None
    then have "\<exists>rc \<in> set (Roles (RBAC guildCfg)).
        \<not> roleSkipped (getRoleNames m guildID member) rc \<and> ''*'' \<in> set (AllowedModels rc)"
      by (simp add: GetAllowedModels_roles_None)
    then have "CanUseModel_roles (Roles (RBAC guildCfg)) (getRoleNames m guildID member) x" for x
      unfolding CanUseModel_roles_iff using matches_wildcard by blast
    with g None show ?thesis
      by (simp add: GetAllowedModels_def CanUseModel_def)
  next
    case (Some a)
    from GetAllowedModels_roles_Some [OF Some] g Some show ?thesis
      by (simp add: GetAllowedModels_def CanUseModel_def)
  qed
qed

lemma GetAllowedModels_unknown:
  "GetGuild (config m) guildID = Inl err \<Longrightarrow> GetAllowedModels m guildID member = []"
  by (simp add: GetAllowedModels_def)

lemma GetGuild_test: "GetGuild (config (NewManager getTestConfig)) ''test-guild'' = Inr (hd (Guilds getTestConfig))"
  by (simp add: GetGuild_def NewManager_def getTestConfig_def)

text \<open>
  C8.  For every guild and any two role sets A and B, a member holding the union of A
  and B is granted exactly the union of what A and B grant: \<open>HasPermission\<close> holds for
  the union exactly when it holds for A or for B, \<open>CanUseModel\<close> likewise, and the
  allowed models of the union are the allowed models of A together with those of B.
\<close>

theorem roles_grant_union:
  "set (Member_Roles mAB) = set (Member_Roles mA) \<union> set (Member_Roles mB) \<Longrightarrow>
   HasPermission m guildID mAB perm =
     (HasPermission m guildID mA perm \<or> HasPermission m guildID mB perm) \<and>
   CanUseModel m guildID mAB modelRef =
     (CanUseModel m guildID mA modelRef \<or> CanUseModel m guildID mB modelRef) \<and>
   set (GetAllowedModels m guildID mAB) =
     set (GetAllowedModels m guildID mA) \<union> set (GetAllowedModels m guildID mB)"
proof -
  assume u: "set (Member_Roles mAB) = set (Member_Roles mA) \<union> set (Member_Roles mB)"
  have sk: "(\<not> roleSkipped (Member_Roles mAB) rc) =
      (\<not> roleSkipped (Member_Roles mA) rc \<or> \<not> roleSkipped (Member_Roles mB) rc)" for rc
    using u by (rule roleSkipped_union)
  have can: "CanUseModel m guildID mAB x =
      (CanUseModel m guildID mA x \<or> CanUseModel m guildID mB x)" for x
    by (cases "GetGuild (config m) guildID")
       (auto simp: CanUseModel_def CanUseModel_roles_iff getRoleNames_def sk)
  have perm: "HasPermission m guildID mAB perm =
      (HasPermission m guildID mA perm \<or> HasPermission m guildID mB perm)"
    by (cases "GetGuild (config m) guildID")
       (auto simp: HasPermission_def HasPermission_roles_iff getRoleNames_def sk)
  have allowed: "set (GetAllowedModels m guildID mAB) =
      set (GetAllowedModels m guildID mA) \<union> set (GetAllowedModels m guildID mB)"
  proof (cases "GetGuild (config m) guildID")
    case (Inl err)
    then show ?thesis by (simp add: GetAllowedModels_unknown)
  next
    case (Inr guildCfg)
    then show ?thesis by (auto simp: GetAllowedModels_set can)
  qed
  from perm can allowed show ?thesis by blast
qed

theorem roles_grant_union_witness:
  "set (Member_Roles \<lparr>Member_Roles = [''Member'', ''Pro'']\<rparr>) =
     set (Member_Roles \<lparr>Member_Roles = [''Member'']\<rparr>)
       \<union> set (Member_Roles \<lparr>Member_Roles = [''Pro'']\<rparr>) \<and>
   CanUseModel (NewManager getTestConfig) ''test-guild''
       \<lparr>Member_Roles = [''Member'', ''Pro'']\<rparr> ''ollama/codellama'' =
     (CanUseModel (NewManager getTestConfig) ''test-guild''
        \<lparr>Member_Roles = [''Member'']\<rparr> ''ollama/codellama'' \<or>
      CanUseModel (NewManager getTestConfig) ''test-guild''
        \<lparr>Member_Roles = [''Pro'']\<rparr> ''ollama/codellama'') \<and>
   set (GetAllowedModels (NewManager getTestConfig) ''test-guild''
          \<lparr>Member_Roles = [''Member'', ''Pro'']\<rparr>) =
     set (GetAllowedModels (NewManager getTestConfig) ''test-guild''
            \<lparr>Member_Roles = [''Member'']\<rparr>) \<union>
     set (GetAllowedModels (NewManager getTestConfig) ''test-guild''
            \<lparr>Member_Roles = [''Pro'']\<rparr>)"
proof -
  have h: "set (Member_Roles \<lparr>Member_Roles = [''Member'', ''Pro'']\<rparr>) =
     set (Member_Roles \<lparr>Member_Roles = [''Member'']\<rparr>)
       \<union> set (Member_Roles \<lparr>Member_Roles = [''Pro'']\<rparr>)"
    by auto
  from roles_grant_union [OF h, where m = "NewManager getTestConfig"
      and guildID = "''test-guild''" and modelRef = "''ollama/codellama''"] h
  show ?thesis by blast
qed

text \<open>
  What the two resolvers of models do for a configured guild.  \<open>GetAllowedModels\<close>
  returns only models the guild has enabled, and under a pattern \<open>"*"\<close> of a held role
  (or of \<open>@everyone\<close>) exactly the guild's enabled-model list.  \<open>CanUseModel\<close> does not
  read the enabled models: it holds exactly when a pattern of a held role matches the
  model reference, hence for every model reference under a pattern \<open>"*"\<close>; on enabled
  models the two agree.
\<close>

lemma GetAllowedModels_within_enabled:
  "GetGuild (config m) guildID = Inr guildCfg \<Longrightarrow>
   set (GetAllowedModels m guildID member) \<subseteq> set (EnabledModels guildCfg) \<and>
   ((\<exists>rc \<in> set (Roles (RBAC guildCfg)).
        (DiscordRole rc \<in> set (Member_Roles member) \<or> DiscordRole rc = ''@everyone'') \<and>
        ''*'' \<in> set (AllowedModels rc))
      \<longrightarrow> GetAllowedModels m guildID member = EnabledModels guildCfg \<and>
          (\<forall>modelRef. CanUseModel m guildID member modelRef)) \<and>
   (\<forall>modelRef.
      CanUseModel m guildID member modelRef =
        (\<exists>rc \<in> set (Roles (RBAC guildCfg)).
           (DiscordRole rc \<in> set (Member_Roles member) \<or> DiscordRole rc = ''@everyone'') \<and>
           (\<exists>pattern \<in> set (AllowedModels rc). matchesModelPattern modelRef pattern))) \<and>
   (\<forall>modelRef \<in> set (EnabledModels guildCfg).
      CanUseModel m guildID member modelRef =
        (modelRef \<in> set (GetAllowedModels m guildID member)))"
proof -
  assume g: "GetGuild (config m) guildID = Inr guildCfg"
  have held: "(\<not> roleSkipped (getRoleNames m guildID member) rc) =
      (DiscordRole rc \<in> set (Member_Roles member) \<or> DiscordRole rc = ''@everyone'')" for rc
    by (auto simp: roleSkipped_iff getRoleNames_def)
  have can: "CanUseModel m guildID member modelRef =
        (\<exists>rc \<in> set (Roles (RBAC guildCfg)).
           (DiscordRole rc \<in> set (Member_Roles member) \<or> DiscordRole rc = ''@everyone'') \<and>
           (\<exists>pattern \<in> set (AllowedModels rc). matchesModelPattern modelRef pattern))"
    for modelRef
    using g by (simp add: CanUseModel_def CanUseModel_roles_iff held)
  have sub: "set (GetAllowedModels m guildID member) \<subseteq> set (EnabledModels guildCfg)"
    using GetAllowedModels_set [OF g] by blast
  have agree: "\<forall>modelRef \<in> set (EnabledModels guildCfg).
      CanUseModel m guildID member modelRef =
        (modelRef \<in> set (GetAllowedModels m guildID member))"
    using GetAllowedModels_set [OF g] by blast
  have wild: "GetAllowedModels m guildID member = EnabledModels guildCfg \<and>
          (\<forall>modelRef. CanUseModel m guildID member modelRef)"
    if w: "\<exists>rc \<in> set (Roles (RBAC guildCfg)).
        (DiscordRole rc \<in> set (Member_Roles member) \<or> DiscordRole rc = ''@everyone'') \<and>
        ''*'' \<in> set (AllowedModels rc)"
  proof -
    from w have "GetAllowedModels_roles (EnabledModels guildCfg) (Roles (RBAC guildCfg))
                  (getRoleNames m guildID member) [] = None"
      by (simp add: GetAllowedModels_roles_None held)
    with g have "GetAllowedModels m guildID member = EnabledModels guildCfg"
      by (simp add: GetAllowedModels_def)
    moreover from w have "CanUseModel m guildID member modelRef" for modelRef
      unfolding can using matches_wildcard by blast
    ultimately show ?thesis by blast
  qed
  from sub wild can agree show ?thesis by blast
qed

text \<open>
  C5.  The claim asks that \<open>CanUseModel\<close> hold only for models the guild has enabled,
  as the allowed-model list does.  The code does not deliver it: for an Admin of the
  test guild, whose pattern is \<open>"*"\<close>, \<open>CanUseModel\<close> holds for the model reference
  \<open>anthropic/claude-3\<close>, which the guild has not enabled and which
  \<open>GetAllowedModels\<close> leaves out for the same member.
\<close>

theorem CanUseModel_grants_unenabled_model:
  "GetGuild (config (NewManager getTestConfig)) ''test-guild'' = Inr (hd (Guilds getTestConfig)) \<and>
   ''anthropic/claude-3'' \<notin> set (EnabledModels (hd (Guilds getTestConfig))) \<and>
   GetAllowedModels (NewManager getTestConfig) ''test-guild'' \<lparr>Member_Roles = [''Admin'']\<rparr>
     = [''ollama/llama3.2'', ''ollama/codellama'', ''openai/gpt-4o'', ''openai/gpt-4o-mini''] \<and>
   ''anthropic/claude-3'' \<notin>
     set (GetAllowedModels (NewManager getTestConfig) ''test-guild''
            \<lparr>Member_Roles = [''Admin'']\<rparr>) \<and>
   CanUseModel (NewManager getTestConfig) ''test-guild'' \<lparr>Member_Roles = [''Admin'']\<rparr>
     ''anthropic/claude-3''"
  by (simp add: CanUseModel_def GetAllowedModels_def GetGuild_def NewManager_def
        getTestConfig_def getRoleNames_def roleSkipped_def matchesModelPattern_def)

section \<open>Properties of the quota ledger\<close>








lemma minute_key_neq_hour_key:
  "RateLimitMinute k guildID userID \<noteq> RateLimitHour k guildID userID"
  by (simp add: RateLimitMinute_def RateLimitHour_def)










text \<open>
  Inside the range of a 64-bit integer the arithmetic of the limiter is exact: a period
  of at most 2562047788015215 hours is a number of seconds below \<open>2 ^ 63\<close>, and the
  period start is the largest multiple of the period that is at most \<open>now\<close>.
\<close>

lemma periodSeconds_of_exact:
  "0 < PeriodHours limit \<Longrightarrow> PeriodHours limit \<le> 2562047788015215 \<Longrightarrow>
   periodSeconds_of limit = PeriodHours limit * 3600"
  unfolding periodSeconds_of_def mul64_def by (rule wrap64_id) simp_all



lemma get_or_0_SET_EX:
  "redis_SET_EX db now key v seconds = Inr db' \<Longrightarrow>
   get_or_0 db' now key' = (if key' = key then v else get_or_0 db now key')"
  by (auto simp: redis_SET_EX_def get_or_0_def redis_GET_def lookup_def split: if_splits)

lemma get_or_0_INCRBY:
  "get_or_0 (redis_INCRBY db now key d) now key' =
     (if key' = key then get_or_0 db now key + d else get_or_0 db now key')"
  by (auto simp: redis_INCRBY_def get_or_0_def redis_GET_def lookup_def
           split: option.splits if_splits)

lemma redis_SET_EX_ok:
  "0 < seconds \<Longrightarrow>
   redis_SET_EX db now key v seconds =
     Inr (db(key \<mapsto> \<lparr>val = v, expire_at = Some (now + seconds)\<rparr>))"
  by (simp add: redis_SET_EX_def)

text \<open>One counter step of the scripts: set when the counter reads 0, increment otherwise.\<close>

lemma bump_counter:
  "0 < seconds \<Longrightarrow>
   \<exists>db'. (if get_or_0 db now key = 0 then redis_SET_EX db now key d seconds
           else Inr (redis_INCRBY db now key d)) = Inr db' \<and>
         (\<forall>key'. get_or_0 db' now key' =
            (if key' = key then get_or_0 db now key + d else get_or_0 db now key'))"
proof (cases "get_or_0 db now key = 0")
  case True
  assume "0 < seconds"
  then have s: "redis_SET_EX db now key d seconds =
     Inr (db(key \<mapsto> \<lparr>val = d, expire_at = Some (now + seconds)\<rparr>))"
    by (rule redis_SET_EX_ok)
  from get_or_0_SET_EX [OF s] True s show ?thesis by simp
next
  case False
  then show ?thesis by (simp add: get_or_0_INCRBY)
qed

lemma rateLimitScript_denied_minute:
  "0 < ARGV1 \<Longrightarrow> ARGV1 \<le> get_or_0 db now KEYS1 \<Longrightarrow>
   rateLimitScript db now KEYS1 KEYS2 ARGV1 ARGV2 ARGV3 ARGV4 =
     (Inr [- 1, if redis_TTL db now KEYS1 > 0 then redis_TTL db now KEYS1 else 60], db)"
  by (simp add: rateLimitScript_def Let_def)

lemma rateLimitScript_denied_hour:
  "\<not> (0 < ARGV1 \<and> ARGV1 \<le> get_or_0 db now KEYS1) \<Longrightarrow>
   0 < ARGV2 \<Longrightarrow> ARGV2 \<le> get_or_0 db now KEYS2 \<Longrightarrow>
   rateLimitScript db now KEYS1 KEYS2 ARGV1 ARGV2 ARGV3 ARGV4 =
     (Inr [- 2, if redis_TTL db now KEYS2 > 0 then redis_TTL db now KEYS2 else 3600], db)"
  by (simp add: rateLimitScript_def Let_def)

lemma rateLimitScript_admitted:
  assumes m: "\<not> (0 < ARGV1 \<and> ARGV1 \<le> get_or_0 db now KEYS1)"
    and h: "\<not> (0 < ARGV2 \<and> ARGV2 \<le> get_or_0 db now KEYS2)"
    and t3: "0 < ARGV3" and t4: "0 < ARGV4" and ne: "KEYS1 \<noteq> KEYS2"
  shows "\<exists>db'. rateLimitScript db now KEYS1 KEYS2 ARGV1 ARGV2 ARGV3 ARGV4 = (Inr [1, 0], db') \<and>
           get_or_0 db' now KEYS1 = get_or_0 db now KEYS1 + 1 \<and>
           get_or_0 db' now KEYS2 = get_or_0 db now KEYS2 + 1 \<and>
           (\<forall>key. key \<noteq> KEYS1 \<and> key \<noteq> KEYS2 \<longrightarrow> get_or_0 db' now key = get_or_0 db now key)"
proof -
  from bump_counter [OF t3, of db now KEYS1 1]
  obtain db1 where s1: "(if get_or_0 db now KEYS1 = 0 then redis_SET_EX db now KEYS1 1 ARGV3
           else Inr (redis_INCR db now KEYS1)) = Inr db1"
    and g1: "\<And>key'. get_or_0 db1 now key' =
            (if key' = KEYS1 then get_or_0 db now KEYS1 + 1 else get_or_0 db now key')"
    unfolding redis_INCR_def by blast
  from ne g1 have same2: "get_or_0 db1 now KEYS2 = get_or_0 db now KEYS2" by simp
  from bump_counter [OF t4, of db1 now KEYS2 1]
  obtain db2 where s2: "(if get_or_0 db1 now KEYS2 = 0 then redis_SET_EX db1 now KEYS2 1 ARGV4
           else Inr (redis_INCR db1 now KEYS2)) = Inr db2"
    and g2: "\<And>key'. get_or_0 db2 now key' =
            (if key' = KEYS2 then get_or_0 db1 now KEYS2 + 1 else get_or_0 db1 now key')"
    unfolding redis_INCR_def by blast
  have r: "rateLimitScript db now KEYS1 KEYS2 ARGV1 ARGV2 ARGV3 ARGV4 = (Inr [1, 0], db2)"
    unfolding rateLimitScript_def Let_def
    using m h s1 s2 [unfolded same2] by (simp only: if_False sum.case)
  from g1 g2 ne same2 r show ?thesis by auto
qed

lemma CheckRateLimit_denied_minute:
  "0 < RequestsPerMinute limits \<Longrightarrow>
   RequestsPerMinute limits \<le> get_or_0 db now (RateLimitMinute (keys (client l)) guildID userID) \<Longrightarrow>
   \<exists>seconds. CheckRateLimit l db now guildID userID limits =
     (Inr \<lparr>RateLimitResult.Allowed = False, RateLimitResult.SecondsToReset = seconds,
           LimitType = ''minute''\<rparr>, db) \<and> 0 < seconds"
  by (simp add: CheckRateLimit_def Let_def rateLimitScript_denied_minute)

lemma CheckRateLimit_denied_hour:
  "\<not> (0 < RequestsPerMinute limits \<and>
      RequestsPerMinute limits \<le> get_or_0 db now (RateLimitMinute (keys (client l)) guildID userID)) \<Longrightarrow>
   0 < RequestsPerHour limits \<Longrightarrow>
   RequestsPerHour limits \<le> get_or_0 db now (RateLimitHour (keys (client l)) guildID userID) \<Longrightarrow>
   \<exists>seconds. CheckRateLimit l db now guildID userID limits =
     (Inr \<lparr>RateLimitResult.Allowed = False, RateLimitResult.SecondsToReset = seconds,
           LimitType = ''hour''\<rparr>, db) \<and> 0 < seconds"
  by (simp add: CheckRateLimit_def Let_def rateLimitScript_denied_hour)

lemma CheckRateLimit_admitted:
  assumes "\<not> (0 < RequestsPerMinute limits \<and>
      RequestsPerMinute limits \<le> get_or_0 db now (RateLimitMinute (keys (client l)) guildID userID))"
    and "\<not> (0 < RequestsPerHour limits \<and>
      RequestsPerHour limits \<le> get_or_0 db now (RateLimitHour (keys (client l)) guildID userID))"
  shows "\<exists>db'. CheckRateLimit l db now guildID userID limits =
     (Inr \<lparr>RateLimitResult.Allowed = True, RateLimitResult.SecondsToReset = 0,
           LimitType = []\<rparr>, db') \<and>
     get_or_0 db' now (RateLimitMinute (keys (client l)) guildID userID) =
       get_or_0 db now (RateLimitMinute (keys (client l)) guildID userID) + 1 \<and>
     get_or_0 db' now (RateLimitHour (keys (client l)) guildID userID) =
       get_or_0 db now (RateLimitHour (keys (client l)) guildID userID) + 1"
proof -
  from rateLimitScript_admitted [OF assms, where ?ARGV3.0 = 60 and ?ARGV4.0 = 3600] minute_key_neq_hour_key
  obtain db' where "rateLimitScript db now (RateLimitMinute (keys (client l)) guildID userID)
        (RateLimitHour (keys (client l)) guildID userID)
        (RequestsPerMinute limits) (RequestsPerHour limits) 60 3600 = (Inr [1, 0], db')"
    and "get_or_0 db' now (RateLimitMinute (keys (client l)) guildID userID) =
       get_or_0 db now (RateLimitMinute (keys (client l)) guildID userID) + 1"
    and "get_or_0 db' now (RateLimitHour (keys (client l)) guildID userID) =
       get_or_0 db now (RateLimitHour (keys (client l)) guildID userID) + 1"
    by auto
  then show ?thesis by (simp add: CheckRateLimit_def)
qed



lemma tokenLimitScript_denied:
  "ARGV1 \<noteq> 0 \<Longrightarrow> ARGV1 < get_or_0 db now KEYS1 + ARGV3 \<Longrightarrow>
   tokenLimitScript db now KEYS1 ARGV1 ARGV2 ARGV3 =
     (Inr [- 1, get_or_0 db now KEYS1, ARGV1 - get_or_0 db now KEYS1,
           if redis_TTL db now KEYS1 > 0 then redis_TTL db now KEYS1 else ARGV2], db)"
  by (simp add: tokenLimitScript_def Let_def)


lemma CheckTokenLimit_denied:
  assumes "\<not> Bypass limit" and "periodSeconds_of limit \<noteq> 0" and "TokensPerPeriod limit \<noteq> 0"
    and "TokensPerPeriod limit
           < get_or_0 db now (tokenKey_of l now guildID userID limit) + tokensToAdd"
  shows "CheckTokenLimit l db now guildID userID limit tokensToAdd =
     (Inr \<lparr>Allowed = False,
           TokensUsed = get_or_0 db now (tokenKey_of l now guildID userID limit),
           TokensRemaining = TokensPerPeriod limit -
              get_or_0 db now (tokenKey_of l now guildID userID limit),
           SecondsToReset =
             (if 0 < redis_TTL db now (tokenKey_of l now guildID userID limit)
              then redis_TTL db now (tokenKey_of l now guildID userID limit)
              else periodSeconds_of limit)\<rparr>, db)"
  using assms
  by (simp add: CheckTokenLimit_def Let_def tokenLimitScript_denied
        periodSeconds_of_def tokenKey_of_def)


lemma get_or_0_empty: "get_or_0 Map.empty now key = 0"
  by (simp add: get_or_0_def redis_GET_def lookup_def)

lemma redis_TTL_empty: "redis_TTL Map.empty now key = - 2"
  by (simp add: redis_TTL_def lookup_def)



text \<open>
  A denial by \<open>CheckTokenLimit\<close> under a period of 1 to 2562047788015215 hours, the
  periods whose length in seconds is a positive 64-bit integer: the result reports the
  current usage, the limit minus the usage and a positive number of seconds, and the
  store is unchanged.
\<close>

lemma CheckTokenLimit_denial_report:
  assumes nb: "\<not> Bypass limit" and pos: "0 < TokensPerPeriod limit"
    and p: "0 < PeriodHours limit" and q: "PeriodHours limit \<le> 2562047788015215"
    and over: "TokensPerPeriod limit
      < get_or_0 db now (tokenKey_of l now guildID userID limit) + tokensToAdd"
  shows "\<exists>seconds.
       CheckTokenLimit l db now guildID userID limit tokensToAdd =
         (Inr \<lparr>Allowed = False,
               TokensUsed = get_or_0 db now (tokenKey_of l now guildID userID limit),
               TokensRemaining =
                 TokensPerPeriod limit - get_or_0 db now (tokenKey_of l now guildID userID limit),
               SecondsToReset = seconds\<rparr>, db) \<and>
       0 < seconds"
proof -
  from periodSeconds_of_exact [OF p q] p have ps: "0 < periodSeconds_of limit" by simp
  then have nz: "periodSeconds_of limit \<noteq> 0" by simp
  from pos have tz: "TokensPerPeriod limit \<noteq> 0" by simp
  from CheckTokenLimit_denied [OF nb nz tz over] ps show ?thesis by simp
qed

text \<open>
  The scenario of \<open>TestTokenLimit\<close>: limit 100 per hour on a fresh store, increments
  30, 50 and 30.
\<close>

lemma CheckTokenLimit_30_50_30:
  "(let limit100 = \<lparr>Bypass = False, TokensPerPeriod = 100, PeriodHours = 1\<rparr>;
        call1 = CheckTokenLimit l Map.empty now guildID userID limit100 30;
        call2 = CheckTokenLimit l (snd call1) now guildID userID limit100 50;
        call3 = CheckTokenLimit l (snd call2) now guildID userID limit100 30
    in fst call1 = Inr \<lparr>Allowed = True, TokensUsed = 30, TokensRemaining = 70,
                          SecondsToReset = 0\<rparr> \<and>
       fst call2 = Inr \<lparr>Allowed = True, TokensUsed = 80, TokensRemaining = 20,
                          SecondsToReset = 0\<rparr> \<and>
       fst call3 = Inr \<lparr>Allowed = False, TokensUsed = 80, TokensRemaining = 20,
                          SecondsToReset = 3600\<rparr> \<and>
       snd call3 = snd call2 \<and>
       GetCurrentUsage l (snd call3) now guildID userID 1 = Inr 80)"
proof -
  have ps: "mul64 1 3600 = 3600" by (simp add: mul64_def wrap64_def)
  show ?thesis
    by (simp add: Let_def CheckTokenLimit_def tokenLimitScript_def GetCurrentUsage_def ps
          get_or_0_def redis_GET_def redis_TTL_def lookup_def redis_SET_EX_def redis_INCRBY_def)
qed

text \<open>
  C2.  The claim asks of every denial a positive time to reset, and so does the
  assertion \<open>SecondsToReset should be positive\<close> of \<open>TestTokenLimit\<close>.  The code, run with
  limit 100 on a fresh store at time 1700000000 and asked for 200 tokens, does not deliver
  it for every period the configuration accepts: with a period of 0 hours the call
  panics on the division by \<open>periodSeconds\<close> instead of denying; with a period of -1
  hours the denial reports -3600 seconds to reset; with a period of 2562047788015216
  hours the product \<open>PeriodHours * 3600\<close> wraps around and the denial reports
  -9223372036854774016 seconds.
\<close>

theorem token_denial_nonpositive_period:
  "\<not> Bypass \<lparr>Bypass = False, TokensPerPeriod = 100, PeriodHours = - 1\<rparr> \<and>
   (0::int) < TokensPerPeriod \<lparr>Bypass = False, TokensPerPeriod = 100, PeriodHours = - 1\<rparr> \<and>
   TokensPerPeriod \<lparr>Bypass = False, TokensPerPeriod = 100, PeriodHours = - 1\<rparr>
     < get_or_0 Map.empty 1700000000 (tokenKey_of testLimiter 1700000000 ''guild1'' ''user1''
         \<lparr>Bypass = False, TokensPerPeriod = 100, PeriodHours = - 1\<rparr>) + 200 \<and>
   CheckTokenLimit testLimiter Map.empty 1700000000 ''guild1'' ''user1''
       \<lparr>Bypass = False, TokensPerPeriod = 100, PeriodHours = 0\<rparr> 200 =
     (Inl DivideByZero, Map.empty) \<and>
   CheckTokenLimit testLimiter Map.empty 1700000000 ''guild1'' ''user1''
       \<lparr>Bypass = False, TokensPerPeriod = 100, PeriodHours = - 1\<rparr> 200 =
     (Inr \<lparr>Allowed = False, TokensUsed = 0, TokensRemaining = 100,
           SecondsToReset = - 3600\<rparr>, Map.empty) \<and>
   CheckTokenLimit testLimiter Map.empty 1700000000 ''guild1'' ''user1''
       \<lparr>Bypass = False, TokensPerPeriod = 100, PeriodHours = 2562047788015216\<rparr> 200 =
     (Inr \<lparr>Allowed = False, TokensUsed = 0, TokensRemaining = 100,
           SecondsToReset = - 9223372036854774016\<rparr>, Map.empty)"
proof -
  have p0: "mul64 0 x = 0" for x by (simp add: mul64_def wrap64_def)
  have p1: "mul64 (- 1) 3600 = - 3600" by (simp add: mul64_def wrap64_def)
  have q1: "quo64 1700000000 (- 3600) = - 472222" by (simp add: quo64_def go_div_def wrap64_def)
  have m1: "mul64 (- 472222) (- 3600) = 1699999200" by (simp add: mul64_def wrap64_def)
  have p2: "mul64 2562047788015216 3600 = - 9223372036854774016"
    by (simp add: mul64_def wrap64_def)
  have q2: "quo64 1700000000 (- 9223372036854774016) = 0"
    by (simp add: quo64_def go_div_def wrap64_def)
  show ?thesis
    by (simp add: CheckTokenLimit_def tokenLimitScript_def get_or_0_empty redis_TTL_empty
          p0 p1 q1 m1 p2 q2)
qed












text \<open>
  C3, as amended.  A rate window whose limit is zero is never checked: it cannot be the
  window of a denial, and with both limits zero every call is admitted.  Its counter is
  nevertheless counted: every admitted call raises both stored counters by one,
  whatever the limits are.
\<close>

theorem zero_limit_unchecked_but_counted:
  "\<exists>r db'.
     CheckRateLimit l db now guildID userID limits = (Inr r, db') \<and>
     (RequestsPerMinute limits = 0 \<longrightarrow> LimitType r \<noteq> ''minute'') \<and>
     (RequestsPerHour limits = 0 \<longrightarrow> LimitType r \<noteq> ''hour'') \<and>
     (RequestsPerMinute limits = 0 \<and> RequestsPerHour limits = 0 \<longrightarrow> RateLimitResult.Allowed r) \<and>
     (RateLimitResult.Allowed r \<longrightarrow>
        get_or_0 db' now (minuteKey_of l guildID userID) =
          get_or_0 db now (minuteKey_of l guildID userID) + 1 \<and>
        get_or_0 db' now (hourKey_of l guildID userID) =
          get_or_0 db now (hourKey_of l guildID userID) + 1)"
proof (cases "0 < RequestsPerMinute limits \<and>
      RequestsPerMinute limits \<le> get_or_0 db now (RateLimitMinute (keys (client l)) guildID userID)")
  case True
  then have a: "0 < RequestsPerMinute limits"
    and b: "RequestsPerMinute limits \<le> get_or_0 db now (RateLimitMinute (keys (client l)) guildID userID)"
    by simp_all
  from CheckRateLimit_denied_minute [OF a b] a show ?thesis by auto
next
  case m: False
  show ?thesis
  proof (cases "0 < RequestsPerHour limits \<and>
      RequestsPerHour limits \<le> get_or_0 db now (RateLimitHour (keys (client l)) guildID userID)")
    case True
    then have a: "0 < RequestsPerHour limits"
      and b: "RequestsPerHour limits \<le> get_or_0 db now (RateLimitHour (keys (client l)) guildID userID)"
      by simp_all
    from CheckRateLimit_denied_hour [OF m a b] a show ?thesis by auto
  next
    case False
    from CheckRateLimit_admitted [OF m False] show ?thesis
      unfolding minuteKey_of_def hourKey_of_def by auto
  qed
qed

theorem zero_limit_unchecked_but_counted_witness:
  "\<exists>r db'.
     CheckRateLimit testLimiter Map.empty 1000 ''guild1'' ''user1''
        \<lparr>RequestsPerMinute = 0, RequestsPerHour = 0\<rparr> = (Inr r, db') \<and>
     RateLimitResult.Allowed r \<and>
     get_or_0 db' 1000 (minuteKey_of testLimiter ''guild1'' ''user1'') = 1 \<and>
     get_or_0 db' 1000 (hourKey_of testLimiter ''guild1'' ''user1'') = 1"
  using zero_limit_unchecked_but_counted [where l = testLimiter and db = Map.empty
      and now = 1000 and guildID = "''guild1''" and userID = "''user1''"
      and limits = "\<lparr>RequestsPerMinute = 0, RequestsPerHour = 0\<rparr>"]
  by (simp add: get_or_0_empty) blast

text \<open>
  The claim C3 as stated fails: under limits of zero an admitted call on a fresh store
  leaves the minute counter at 1, where it did not exist before.
\<close>

theorem zero_limit_counter_untouched_counterexample:
  "RequestsPerMinute \<lparr>RequestsPerMinute = 0, RequestsPerHour = 0\<rparr> = 0 \<and>
   fst (CheckRateLimit testLimiter Map.empty 1000 ''guild1'' ''user1''
          \<lparr>RequestsPerMinute = 0, RequestsPerHour = 0\<rparr>) =
     Inr \<lparr>RateLimitResult.Allowed = True, RateLimitResult.SecondsToReset = 0, LimitType = []\<rparr> \<and>
   redis_GET Map.empty 1000 (minuteKey_of testLimiter ''guild1'' ''user1'') = None \<and>
   redis_GET (snd (CheckRateLimit testLimiter Map.empty 1000 ''guild1'' ''user1''
                \<lparr>RequestsPerMinute = 0, RequestsPerHour = 0\<rparr>)) 1000
        (minuteKey_of testLimiter ''guild1'' ''user1'') = Some 1"
  by (simp add: CheckRateLimit_def rateLimitScript_def get_or_0_def redis_GET_def lookup_def
        redis_SET_EX_def minuteKey_of_def testLimiter_def RateLimitMinute_def RateLimitHour_def)




end
